theory Spec2Isabelle
  imports Complex_Main
begin

section \<open>Python values used by the converter\<close>

text \<open>
  The exceptions the modelled code can raise. \<open>AssertionError\<close> carries its message,
  because \<open>VCDParser.parse\<close> logs it; \<open>SystemExit\<close> is \<open>sys.exit(-1)\<close>.
\<close>

datatype py_error =
    ValueError
  | TypeError
  | AttributeError
  | IndexError
  | SystemExit
  | AssertionError string

text \<open>
  In the arithmetic of the converter a Python \<open>float\<close> is kept as the rational it
  denotes: the scaling and rounding of \<open>TimeScale.convert_to\<close> are computed exactly,
  without the binary rounding error of the machine operations. Where a float is read
  from text or printed, the IEEE 754 double comes in: \<open>float(s)\<close> rounds to the
  nearest double and \<open>str\<close> prints the shortest decimal that reads back as that double
  (see \<open>Floats as text\<close>).
\<close>

type_synonym pyfloat = rat

subsection \<open>Strings\<close>

definition is_digit :: "char \<Rightarrow> bool" where
  "is_digit c = (c \<in> set ''0123456789'')"

definition digit_char :: "nat \<Rightarrow> char" where
  "digit_char d = ''0123456789'' ! (d mod 10)"

definition digit_val :: "char \<Rightarrow> nat" where
  "digit_val c = of_char c - of_char CHR ''0''"

text \<open>\<open>str(n)\<close> for a non-negative integer.\<close>

fun str_nat :: "nat \<Rightarrow> string" where
  "str_nat n = (if n < 10 then [digit_char n] else str_nat (n div 10) @ [digit_char (n mod 10)])"

declare str_nat.simps [simp del]

definition digits_val :: "string \<Rightarrow> nat" where
  "digits_val s = foldl (\<lambda>acc c. 10 * acc + digit_val c) 0 s"

text \<open>
  \<open>int(s)\<close> on an optional sign followed by decimal digits; anything else raises
  \<open>ValueError\<close> (\<open>None\<close> here). Python also accepts surrounding blanks and
  underscores between digits, which the lexer's values never contain.
\<close>

definition py_int :: "string \<Rightarrow> int option" where
  "py_int s =
     (let neg = (s \<noteq> [] \<and> hd s = CHR ''-'');
          body = (if s \<noteq> [] \<and> (hd s = CHR ''-'' \<or> hd s = CHR ''+'') then tl s else s)
      in if body \<noteq> [] \<and> list_all is_digit body
         then Some (if neg then - int (digits_val body) else int (digits_val body))
         else None)"

definition is_space :: "char \<Rightarrow> bool" where
  "is_space c = (c \<in> set [CHR '' '', CHR 0x09, CHR 0x0A, CHR 0x0B, CHR 0x0C, CHR 0x0D,
                           CHR 0x1C, CHR 0x1D, CHR 0x1E, CHR 0x1F, CHR 0x85, CHR 0xA0])"

text \<open>\<open>s.split()\<close>: the maximal runs of non-blank characters.\<close>

fun split_acc :: "string \<Rightarrow> string \<Rightarrow> string list" where
  "split_acc cur [] = (if cur = [] then [] else [cur])"
| "split_acc cur (c # cs) =
     (if is_space c then (if cur = [] then split_acc [] cs else cur # split_acc [] cs)
      else split_acc (cur @ [c]) cs)"

definition py_split :: "string \<Rightarrow> string list" where
  "py_split s = split_acc [] s"

text \<open>\<open>sep.join(xs)\<close>.\<close>

fun py_join :: "string \<Rightarrow> string list \<Rightarrow> string" where
  "py_join sep [] = []"
| "py_join sep [x] = x"
| "py_join sep (x # y # ys) = x @ sep @ py_join sep (y # ys)"

text \<open>\<open>s * n\<close> on a string: \<open>n\<close> copies, none when \<open>n \<le> 0\<close>.\<close>

definition str_mul :: "string \<Rightarrow> int \<Rightarrow> string" where
  "str_mul s n = concat (replicate (nat n) s)"

subsection \<open>Floats as text\<close>

text \<open>
  What \<open>float(s)\<close> can return: a finite double, given by the rational it denotes, the
  negative zero, an infinity (\<open>True\<close> for the negative one) or NaN.
\<close>

datatype float_value = Finite rat | NegZero | Infinity bool | NaN

text \<open>Rounding to the nearest integer, an exact tie going to the even neighbour.\<close>

definition round_half_even :: "rat \<Rightarrow> int" where
  "round_half_even s =
     (let f = \<lfloor>s\<rfloor>;
          d = s - of_int f
      in if d < 1 / 2 then f else if 1 / 2 < d then f + 1
         else if even f then f else f + 1)"

text \<open>
  The binary exponent of a positive rational \<open>a\<close>: the \<open>e\<close> with
  \<open>2^e \<le> a < 2^(e+1)\<close>. The bit lengths of numerator and denominator give it up to
  one, and the comparison settles it. \<open>bit_count n\<close> is \<open>n.bit_length()\<close> for a
  positive \<open>n\<close>.
\<close>

function bit_count :: "int \<Rightarrow> int" where
  "bit_count n = (if n \<le> 0 then 0 else bit_count (n div 2) + 1)"
  by pat_completeness auto

termination
  by (relation "measure nat") auto

declare bit_count.simps [simp del]

definition binary_exponent :: "rat \<Rightarrow> int" where
  "binary_exponent a =
     (let (p, q) = quotient_of a;
          e0 = bit_count p - bit_count q
      in if 2 powi e0 \<le> a then e0 else e0 - 1)"

text \<open>
  The IEEE 754 binary64 value nearest to a rational \<open>a \<ge> 0\<close>, ties to even: 53
  significant bits, the spacing never below \<open>2^-1074\<close> (subnormal numbers, and zero
  on underflow). \<open>None\<close> is the overflow to infinity, when the rounded value
  reaches \<open>2^1024\<close>.
\<close>

definition round_double :: "rat \<Rightarrow> rat option" where
  "round_double a =
     (if a = 0 then Some 0
      else let e = binary_exponent a;
               qe = max (e - 52) (- 1074);
               r = of_int (round_half_even (a / 2 powi qe)) * 2 powi qe
           in if 1024 \<le> binary_exponent r then None else Some r)"

text \<open>The float of sign \<open>neg\<close> and magnitude \<open>a\<close>.\<close>

definition to_float :: "bool \<Rightarrow> rat \<Rightarrow> float_value" where
  "to_float neg a =
     (case round_double a of
        None \<Rightarrow> Infinity neg
      | Some r \<Rightarrow> if neg then (if r = 0 then NegZero else Finite (- r)) else Finite r)"

text \<open>The value of a digit string, and the digits of a positive integer.\<close>

definition digits_int :: "string \<Rightarrow> int" where
  "digits_int s = foldl (\<lambda>acc c. 10 * acc + int (digit_val c)) 0 s"

function str_int :: "int \<Rightarrow> string" where
  "str_int n = (if n < 10 then [digit_char (nat n)]
                else str_int (n div 10) @ [digit_char (nat (n mod 10))])"
  by pat_completeness auto

termination
  by (relation "measure nat") auto

declare str_int.simps [simp del]

text \<open>
  The grammar of \<open>float(s)\<close>. A digit part is a run of digits in which single
  underscores may stand between two digits; \<open>digitpart\<close> returns its digits and the
  rest of the string.
\<close>

fun digitpart :: "string \<Rightarrow> string \<times> string" where
  "digitpart [] = ([], [])"
| "digitpart (c # cs) =
     (if \<not> is_digit c then ([], c # cs)
      else case cs of
             [] \<Rightarrow> ([c], [])
           | x # xs \<Rightarrow>
               if is_digit x then (case digitpart cs of (ds, rest) \<Rightarrow> (c # ds, rest))
               else if x = CHR ''_'' \<and> xs \<noteq> [] \<and> is_digit (hd xs)
               then (case digitpart xs of (ds, rest) \<Rightarrow> (c # ds, rest))
               else ([c], cs))"

text \<open>
  A number is \<open>[digitpart] "." digitpart\<close> or \<open>digitpart ["."]\<close>: the digits before
  the point, those after it, and the rest of the string.
\<close>

definition parse_number :: "string \<Rightarrow> (string \<times> string \<times> string) option" where
  "parse_number s =
     (case digitpart s of
        (ip, r) \<Rightarrow>
          if r \<noteq> [] \<and> hd r = CHR ''.''
          then (case digitpart (tl r) of
                  (fp, r') \<Rightarrow> if ip = [] \<and> fp = [] then None else Some (ip, fp, r'))
          else if ip = [] then None else Some (ip, [], r))"

text \<open>
  What follows the number: nothing, or \<open>e\<close> or \<open>E\<close>, an optional sign and a digit
  part, up to the end of the string.
\<close>

definition parse_exponent :: "string \<Rightarrow> int option" where
  "parse_exponent r =
     (case r of
        [] \<Rightarrow> Some 0
      | c # r1 \<Rightarrow>
          if c = CHR ''e'' \<or> c = CHR ''E''
          then (let neg = (r1 \<noteq> [] \<and> hd r1 = CHR ''-'');
                    r2 = (if r1 \<noteq> [] \<and> (hd r1 = CHR ''-'' \<or> hd r1 = CHR ''+'') then tl r1 else r1)
                in case digitpart r2 of
                     (ds, r3) \<Rightarrow>
                       if ds \<noteq> [] \<and> r3 = []
                       then Some (if neg then - digits_int ds else digits_int ds)
                       else None)
          else None)"

definition lower :: "char \<Rightarrow> char" where
  "lower c = (if c \<in> set ''ABCDEFGHIJKLMNOPQRSTUVWXYZ''
              then char_of (of_char c + (32::nat)) else c)"

definition float_space :: "char \<Rightarrow> bool" where
  "float_space c = (c \<in> set [CHR '' '', CHR 0x09, CHR 0x0A, CHR 0x0B, CHR 0x0C, CHR 0x0D,
                              CHR 0x85, CHR 0xA0])"

definition strip :: "string \<Rightarrow> string" where
  "strip s = rev (dropWhile float_space (rev (dropWhile float_space s)))"

text \<open>
  \<open>float(s)\<close>: blanks around the text are dropped (the separators \<open>0x1C\<close> to
  \<open>0x1F\<close>, at which \<open>split\<close> cuts, are not among them); then an optional sign and
  either \<open>inf\<close>, \<open>infinity\<close> or \<open>nan\<close> in any case, or a number with an
  optional exponent, whose decimal value is rounded to the nearest double. Every other
  string is \<open>None\<close>, Python's \<open>ValueError\<close>. A character is a code point below
  256 here, so the digits and blanks beyond that range, which Python also reads, are not
  covered.
\<close>

definition py_float :: "string \<Rightarrow> float_value option" where
  "py_float s =
     (let t = strip s;
          neg = (t \<noteq> [] \<and> hd t = CHR ''-'');
          body = (if t \<noteq> [] \<and> (hd t = CHR ''-'' \<or> hd t = CHR ''+'') then tl t else t);
          word = map lower body
      in if word = ''inf'' \<or> word = ''infinity'' then Some (Infinity neg)
         else if word = ''nan'' then Some NaN
         else case parse_number body of
                None \<Rightarrow> None
              | Some (ip, fp, r) \<Rightarrow>
                  (case parse_exponent r of
                     None \<Rightarrow> None
                   | Some ex \<Rightarrow>
                       Some (to_float neg
                               (of_int (digits_int (ip @ fp)) * 10 powi (ex - int (length fp))))))"

text \<open>
  The decimal exponent of a positive double \<open>d\<close>: the \<open>E\<close> with
  \<open>10^E \<le> d < 10^(E+1)\<close>. The doubles lie between \<open>10^-324\<close> and \<open>10^309\<close>, so
  \<open>400\<close> steps reach every one of them.
\<close>

fun dec_exp_steps :: "nat \<Rightarrow> rat \<Rightarrow> int" where
  "dec_exp_steps 0 a = 0"
| "dec_exp_steps (Suc n) a =
     (if 10 \<le> a then dec_exp_steps n (a / 10) + 1
      else if a < 1 then dec_exp_steps n (a * 10) - 1
      else 0)"

definition dec_exp :: "rat \<Rightarrow> int" where
  "dec_exp d = dec_exp_steps 400 d"

text \<open>
  The \<open>k\<close>-digit decimals next to \<open>d\<close> are \<open>lo * 10^q\<close> and \<open>(lo + 1) * 10^q\<close>
  with \<open>q = E - k + 1\<close>. \<open>digits_at\<close> returns the one that reads back as \<open>d\<close>; if
  both do, the nearer one, and the even one when \<open>d\<close> lies midway; \<open>None\<close> if
  neither does.
\<close>

definition digits_at :: "rat \<Rightarrow> int \<Rightarrow> nat \<Rightarrow> int option" where
  "digits_at d E k =
     (let q = E - int k + 1;
          s = d / 10 powi q;
          lo = \<lfloor>s\<rfloor>;
          hi = lo + 1;
          ok_lo = (round_double (of_int lo * 10 powi q) = Some d);
          ok_hi = (round_double (of_int hi * 10 powi q) = Some d)
      in if ok_lo \<and> ok_hi
         then Some (if s - of_int lo < of_int hi - s then lo
                    else if of_int hi - s < s - of_int lo then hi
                    else if even lo then lo else hi)
         else if ok_lo then Some lo
         else if ok_hi then Some hi
         else None)"

text \<open>
  The shortest decimal that reads back as \<open>d\<close>: the first \<open>k\<close>, counting from
  \<open>k\<close> through \<open>n\<close> more lengths, at which \<open>digits_at\<close> finds one. Seventeen
  digits always identify a double, so the search from \<open>1\<close> ends by \<open>k = 17\<close> and the
  first equation is not reached; it returns the rounded digits, kept positive.
\<close>

fun shortest_from :: "nat \<Rightarrow> rat \<Rightarrow> int \<Rightarrow> nat \<Rightarrow> int \<times> nat" where
  "shortest_from 0 d E k = (max 1 (round_half_even (d / 10 powi (E - int k + 1))), k)"
| "shortest_from (Suc n) d E k =
     (case digits_at d E k of
        Some m \<Rightarrow> (m, k)
      | None \<Rightarrow> shortest_from n d E (Suc k))"

definition strip_zeros :: "string \<Rightarrow> string" where
  "strip_zeros s = rev (dropWhile (\<lambda>c. c = CHR ''0'') (rev s))"

text \<open>
  \<open>repr\<close> of a positive double: its shortest digits \<open>ds\<close> and the decimal exponent
  \<open>E'\<close> of the first of them. Python prints them in exponent notation when
  \<open>E' < -4\<close> or \<open>16 \<le> E'\<close>, the exponent with a sign and at least two digits
  (\<open>1e+16\<close>, \<open>1.5e-07\<close>), and otherwise with a point and at least one digit behind it
  (\<open>5.0\<close>, \<open>5.25\<close>, \<open>0.005\<close>).
\<close>

definition repr_pos :: "rat \<Rightarrow> string" where
  "repr_pos d =
     (let E = dec_exp d;
          (m, k) = shortest_from 17 d E 1;
          ds0 = str_int m;
          E' = E + int (length ds0) - int k;
          ds = strip_zeros ds0
      in if E' < - 4 \<or> 16 \<le> E'
         then take 1 ds @ (if tl ds = [] then [] else ''.'' @ tl ds) @ ''e''
              @ (if E' < 0 then ''-'' else ''+'')
              @ (if \<bar>E'\<bar> < 10 then ''0'' else []) @ str_int \<bar>E'\<bar>
         else if E' < 0
         then ''0.'' @ replicate (nat (- E' - 1)) CHR ''0'' @ ds
         else let n = nat E' + 1
              in if length ds \<le> n
                 then ds @ replicate (n - length ds) CHR ''0'' @ ''.0''
                 else take n ds @ ''.'' @ drop n ds)"

text \<open>\<open>repr(v)\<close>, which is also \<open>str(v)\<close> and the text of \<open>v\<close> in an f-string.\<close>

definition float_repr :: "float_value \<Rightarrow> string" where
  "float_repr v =
     (case v of
        Finite x \<Rightarrow> if x = 0 then ''0.0'' else if x < 0 then ''-'' @ repr_pos (- x) else repr_pos x
      | NegZero \<Rightarrow> ''-0.0''
      | Infinity neg \<Rightarrow> if neg then ''-inf'' else ''inf''
      | NaN \<Rightarrow> ''nan'')"

text \<open>
  \<open>str(x)\<close> for a float of the arithmetic, which is kept as a rational: the text of the
  double nearest to it.
\<close>

definition float_str :: "pyfloat \<Rightarrow> string" where
  "float_str x = float_repr (to_float (x < 0) \<bar>x\<bar>)"

text \<open>
  \<open>round(x, n)\<close>: the nearest multiple of \<open>10^-n\<close>, an exact tie going to the even
  neighbour.
\<close>

definition py_round :: "pyfloat \<Rightarrow> nat \<Rightarrow> pyfloat" where
  "py_round x n =
     (let s = x * 10 ^ n;
          f = \<lfloor>s\<rfloor>;
          d = s - of_int f;
          r = (if d < 1 / 2 then f else if 1 / 2 < d then f + 1
               else if even f then f else f + 1)
      in of_int r / 10 ^ n)"

section \<open>dataflow/types.py\<close>

subsection \<open>TimeScale\<close>

definition TIMESCALE_ROUNDING :: nat where
  "TIMESCALE_ROUNDING = 3"

record TimeScale =
  base_num :: int
  base_unit :: string

text \<open>The table \<open>_unit_conversion\<close>; \<open>dict.get\<close> returns \<open>None\<close> on any other key.\<close>

definition unit_conversion :: "string \<Rightarrow> pyfloat option" where
  "unit_conversion u =
     (if u = ''ms'' then Some (10 ^ 3)
      else if u = ''us'' then Some (10 ^ 6)
      else if u = ''ns'' then Some (10 ^ 9)
      else if u = ''ps'' then Some (10 ^ 12)
      else None)"

text \<open>
  \<open>TimeScale.convert_to\<close>. Dividing with a \<open>None\<close> operand raises \<open>TypeError\<close>.
  The body reads \<open>base_unit\<close> only.
\<close>

definition convert_to :: "TimeScale \<Rightarrow> int \<Rightarrow> string \<Rightarrow> py_error + pyfloat" where
  "convert_to ts timestamp unit =
     (case (unit_conversion unit, unit_conversion (base_unit ts)) of
        (Some a, Some b) \<Rightarrow> Inr (py_round (of_int timestamp * (a / b)) TIMESCALE_ROUNDING)
      | _ \<Rightarrow> Inl TypeError)"

subsection \<open>Register\<close>

text \<open>
  \<open>Register\<close> and its subclass \<open>Wire\<close>, which overrides nothing that behaves
  differently; \<open>is_wire\<close> records the class. \<open>timing_assignments\<close> is a Python
  \<open>dict\<close>: an association list in insertion order.
\<close>

record Register =
  name :: string
  width :: nat
  dim :: nat
  is_wire :: bool
  data :: "int list"
  timing_assignments :: "(int \<times> int list) list"
  export_pwl_safe :: bool

text \<open>\<open>__post_init__\<close>: \<open>np.zeros(width)\<close>, an empty timeline, safe to export.\<close>

definition new_register :: "bool \<Rightarrow> string \<Rightarrow> nat \<Rightarrow> Register" where
  "new_register w nm wd =
     \<lparr>name = nm, width = wd, dim = 0, is_wire = w, data = replicate wd 0,
      timing_assignments = [], export_pwl_safe = True\<rparr>"

text \<open>
  \<open>d[k] = v\<close>: an existing key keeps its place and takes the new value, a new key goes
  to the end.
\<close>

fun dict_set :: "('k \<times> 'v) list \<Rightarrow> 'k \<Rightarrow> 'v \<Rightarrow> ('k \<times> 'v) list" where
  "dict_set [] k v = [(k, v)]"
| "dict_set ((k', v') # kvs) k v =
     (if k' = k then (k, v) # kvs else (k', v') # dict_set kvs k v)"

definition tag :: "Register \<Rightarrow> bool \<Rightarrow> Register" where
  "tag r x_state = r\<lparr>export_pwl_safe := \<not> x_state\<rparr>"

text \<open>\<open>int.bit_length\<close>: the number of bits of the absolute value.\<close>

fun nat_bit_length :: "nat \<Rightarrow> nat" where
  "nat_bit_length n = (if n = 0 then 0 else Suc (nat_bit_length (n div 2)))"

declare nat_bit_length.simps [simp del]

definition bit_length :: "int \<Rightarrow> nat" where
  "bit_length v = nat_bit_length (nat \<bar>v\<bar>)"

text \<open>
  \<open>Register.int2bit_array\<close>: the loop writes \<open>(value >> i) & 1\<close> at index
  \<open>width - 1 - i\<close>, so index \<open>j\<close> holds bit \<open>width - 1 - j\<close>.
\<close>

definition int2bit_array :: "Register \<Rightarrow> int \<Rightarrow> py_error + int list" where
  "int2bit_array r v =
     (if bit_length v > width r then Inl ValueError
      else Inr (map (\<lambda>j. (v div 2 ^ (width r - 1 - j)) mod 2) [0..<width r]))"

text \<open>
  \<open>Register.update\<close> mutates the register; the model returns the outcome together
  with the register as the call leaves it. \<open>int2bit_array\<close> raises before any field is
  assigned.
\<close>

definition update :: "Register \<Rightarrow> int \<Rightarrow> int \<Rightarrow> (py_error + unit) \<times> Register" where
  "update r timestamp v =
     (case int2bit_array r v of
        Inl e \<Rightarrow> (Inl e, r)
      | Inr bit_value \<Rightarrow>
          (Inr (),
           r\<lparr>timing_assignments := dict_set (timing_assignments r) timestamp bit_value,
             data := bit_value\<rparr>))"

subsection \<open>Sequencing calls that may raise\<close>

definition bnd :: "'e + 'a \<Rightarrow> ('a \<Rightarrow> 'e + 'b) \<Rightarrow> 'e + 'b" where
  "bnd m f = (case m of Inl e \<Rightarrow> Inl e | Inr x \<Rightarrow> f x)"

section \<open>dataflow/helper.py\<close>

text \<open>
  \<open>eval_expr(e, base, unit)\<close> receives either a float or a string. \<open>sympify\<close> and
  the printing of its result belong to the sympy library, so \<open>str(sympify(e))\<close> is the
  parameter \<open>pr\<close> of the model. Without a unit the sympy object itself is returned,
  kept here by its printed form.
\<close>

datatype expr_arg = FloatArg pyfloat | StrArg string

datatype eval_result = Text string | Sympified string

definition result_str :: "eval_result \<Rightarrow> string" where
  "result_str r = (case r of Text s \<Rightarrow> s | Sympified s \<Rightarrow> s)"

text \<open>
  One turn of the loop over \<open>str(result).split()\<close>. A token that \<open>float\<close> rejects is
  kept. For one it accepts, the \<open>else\<close> branch formats \<open>float(arg * int(base))\<close>:
  \<open>arg\<close> is a string there, so the product repeats the text, and the outer \<open>float\<close>
  is outside the \<open>try\<close>. \<open>int(None)\<close> raises \<open>TypeError\<close>.
\<close>

definition render_arg :: "int option \<Rightarrow> string \<Rightarrow> string \<Rightarrow> py_error + string" where
  "render_arg base unit arg =
     (case py_float arg of
        None \<Rightarrow> Inr arg
      | Some _ \<Rightarrow>
          (case base of
             None \<Rightarrow> Inl TypeError
           | Some b \<Rightarrow>
               (case py_float (str_mul arg b) of
                  None \<Rightarrow> Inl ValueError
                | Some x \<Rightarrow> Inr (float_repr x @ unit))))"

fun render_args :: "int option \<Rightarrow> string \<Rightarrow> string list \<Rightarrow> py_error + string list" where
  "render_args base unit [] = Inr []"
| "render_args base unit (arg # rest) =
     bnd (render_arg base unit arg) (\<lambda>s.
     bnd (render_args base unit rest) (\<lambda>ss. Inr (s # ss)))"

definition eval_expr ::
  "(expr_arg \<Rightarrow> string) \<Rightarrow> expr_arg \<Rightarrow> int option \<Rightarrow> string option \<Rightarrow> py_error + eval_result" where
  "eval_expr pr e base unit =
     (let result = pr e
      in case unit of
           None \<Rightarrow> Inr (Sympified result)
         | Some u \<Rightarrow>
             if u = [] then Inr (Sympified result)
             else bnd (render_args base u (py_split result)) (\<lambda>args.
                  Inr (Text (py_join '' '' args))))"

section \<open>The PWL emitter\<close>

definition quote :: string where
  "quote = [CHR 0x27]"

definition newline :: string where
  "newline = [CHR 0x0A]"

text \<open>
  The name of the directive for index \<open>m\<close> of \<open>data\<close>. \<open>data\<close> is always
  one-dimensional, so the index tuple has one component and the two-dimensional branch of
  the source is never taken.
\<close>

definition pwl_name :: "Register \<Rightarrow> nat \<Rightarrow> string" where
  "pwl_name r m =
     (if width r > 1 then name r @ ''['' @ str_nat (width r - 1 - m) @ '']'' else name r)"

text \<open>\<open>'vvdd' if bit_value[data_idx] else '0'\<close>; an index past the array raises.\<close>

definition crnt_level :: "int list \<Rightarrow> nat \<Rightarrow> py_error + string" where
  "crnt_level bit_value m =
     (if m < length bit_value then Inr (if bit_value ! m \<noteq> 0 then ''vvdd'' else ''0'')
      else Inl IndexError)"

text \<open>
  The branch \<open>elif _prev != crnt_v\<close>: the text added to the line at a change of level.
  \<open>timescale\<close> is \<open>None\<close> when the trace had no timescale.
\<close>

definition rf_identifier :: "string \<Rightarrow> string" where
  "rf_identifier nm = (if nm = ''CLK'' then ''tcrf'' else ''trf'')"

definition pwl_transition ::
  "(expr_arg \<Rightarrow> string) \<Rightarrow> TimeScale option \<Rightarrow> (string \<Rightarrow> int option) \<Rightarrow> string \<Rightarrow>
   int \<Rightarrow> string \<Rightarrow> string \<Rightarrow> py_error + string" where
  "pwl_transition pr timescale expr nm timestamp prev crnt_v =
     (let rf = rf_identifier nm
      in case timescale of
           None \<Rightarrow> Inl AttributeError
         | Some ts \<Rightarrow>
             bnd (convert_to ts timestamp ''ns'') (\<lambda>t.
             bnd (eval_expr pr (FloatArg t) (Some 1) (Some ''ns'')) (\<lambda>t_expr.
               if expr rf = Some 0
               then bnd (eval_expr pr (StrArg (float_str t @ '' + '' @ rf))
                           (Some 1) (Some ''ns'')) (\<lambda>t_rf.
                    Inr (quote @ result_str t_expr @ quote @ '' '' @ prev @ '' '' @
                         quote @ result_str t_rf @ quote @ '' '' @ crnt_v @ '' ''))
               else Inr (quote @ result_str t_expr @ quote @ '' '' @ crnt_v @ '' ''))))"

text \<open>
  One turn of the loop over the timeline, on the pair \<open>(line, _prev)\<close>.
\<close>

definition pwl_step ::
  "(expr_arg \<Rightarrow> string) \<Rightarrow> TimeScale option \<Rightarrow> (string \<Rightarrow> int option) \<Rightarrow> string \<Rightarrow> nat \<Rightarrow>
   string \<times> string \<Rightarrow> int \<times> int list \<Rightarrow> py_error + string \<times> string" where
  "pwl_step pr timescale expr nm m st entry =
     bnd (crnt_level (snd entry) m) (\<lambda>crnt_v.
       if snd st = ''na'' then Inr (fst st @ ''0 '' @ crnt_v @ newline @ ''+'', crnt_v)
       else if snd st \<noteq> crnt_v
       then bnd (pwl_transition pr timescale expr nm (fst entry) (snd st) crnt_v) (\<lambda>seg.
            Inr (fst st @ seg, crnt_v))
       else Inr (fst st, crnt_v))"

fun pwl_walk ::
  "(expr_arg \<Rightarrow> string) \<Rightarrow> TimeScale option \<Rightarrow> (string \<Rightarrow> int option) \<Rightarrow> string \<Rightarrow> nat \<Rightarrow>
   string \<times> string \<Rightarrow> (int \<times> int list) list \<Rightarrow> py_error + string \<times> string" where
  "pwl_walk pr timescale expr nm m st [] = Inr st"
| "pwl_walk pr timescale expr nm m st (entry # rest) =
     bnd (pwl_step pr timescale expr nm m st entry) (\<lambda>st'.
     pwl_walk pr timescale expr nm m st' rest)"

text \<open>The directive of one index: header, the walk from \<open>_prev = 'na'\<close>, and the close.\<close>

definition pwl_header :: "string \<Rightarrow> string" where
  "pwl_header pn = ''V'' @ pn @ '' '' @ pn @ '' 0 pwl(''"

definition pwl_line ::
  "(expr_arg \<Rightarrow> string) \<Rightarrow> Register \<Rightarrow> TimeScale option \<Rightarrow> (string \<Rightarrow> int option) \<Rightarrow> nat \<Rightarrow>
   py_error + string" where
  "pwl_line pr r timescale expr m =
     bnd (pwl_walk pr timescale expr (name r) m (pwl_header (pwl_name r m), ''na'')
            (timing_assignments r)) (\<lambda>st.
     Inr (fst st @ '')'' @ newline @ newline))"

fun pwl_lines ::
  "(expr_arg \<Rightarrow> string) \<Rightarrow> Register \<Rightarrow> TimeScale option \<Rightarrow> (string \<Rightarrow> int option) \<Rightarrow>
   string \<Rightarrow> nat list \<Rightarrow> py_error + string" where
  "pwl_lines pr r timescale expr lines [] = Inr lines"
| "pwl_lines pr r timescale expr lines (m # ms) =
     bnd (pwl_line pr r timescale expr m) (\<lambda>line.
     pwl_lines pr r timescale expr (lines @ line) ms)"

text \<open>
  \<open>Register.generate_piecewise_linear\<close>: nothing for a register that is not safe to
  export, else one directive per index of \<open>data\<close>.
\<close>

definition generate_piecewise_linear ::
  "(expr_arg \<Rightarrow> string) \<Rightarrow> Register \<Rightarrow> TimeScale option \<Rightarrow> (string \<Rightarrow> int option) \<Rightarrow>
   py_error + string" where
  "generate_piecewise_linear pr r timescale expr =
     (if \<not> export_pwl_safe r then Inr ''''
      else pwl_lines pr r timescale expr '''' [0..<length (data r)])"

section \<open>Scopes and the document\<close>

text \<open>
  Python shares one \<open>Register\<close> object between a module's \<open>variables\<close> and the
  document's list \<open>signals\<close>. The model keeps the objects in \<open>signals\<close>, in the order
  they were created, and a module's \<open>variables\<close> maps an identifier to the position of
  its register there.
\<close>

record Module =
  mname :: string
  variables :: "(string \<times> nat) list"

definition new_module :: "string \<Rightarrow> Module" where
  "new_module nm = \<lparr>mname = nm, variables = []\<rparr>"

definition add_signal :: "Module \<Rightarrow> string \<Rightarrow> nat \<Rightarrow> Module" where
  "add_signal m ident i = m\<lparr>variables := dict_set (variables m) ident i\<rparr>"

text \<open>
  \<open>current_module\<close> is a reference: to the top module, or to the \<open>k\<close>-th entry of
  \<open>_shadow_modules\<close>.
\<close>

datatype module_ref = TopModule | ShadowModule nat

record VCDModule =
  date :: string
  version :: string
  timescale :: "TimeScale option"
  module :: "Module option"
  current_module :: "module_ref option"
  shadow_modules :: "Module list"
  signals :: "Register list"
  sig_map :: "(string \<times> string) list"

definition new_VCDModule :: VCDModule where
  "new_VCDModule =
     \<lparr>date = '''', version = '''', timescale = None, module = None, current_module = None,
      shadow_modules = [], signals = [], sig_map = []\<rparr>"

text \<open>
  \<open>VCDModule.add_reg\<close> and \<open>add_wire\<close>, which differ in the class of the object
  only. With no current module, \<open>self.current_module.add_signal\<close> raises.
\<close>

definition add_reg :: "VCDModule \<Rightarrow> Register \<Rightarrow> string \<Rightarrow> py_error + VCDModule" where
  "add_reg self reg ident =
     (let self1 = self\<lparr>sig_map := dict_set (sig_map self) ident (name reg)\<rparr>;
          i = length (signals self)
      in case current_module self of
           None \<Rightarrow> Inl AttributeError
         | Some TopModule \<Rightarrow>
             (case module self of
                None \<Rightarrow> Inl AttributeError
              | Some m \<Rightarrow>
                  Inr (self1\<lparr>module := Some (add_signal m ident i),
                             signals := signals self @ [reg]\<rparr>))
         | Some (ShadowModule k) \<Rightarrow>
             Inr (self1\<lparr>shadow_modules :=
                          (shadow_modules self)[k := add_signal (shadow_modules self ! k) ident i],
                        signals := signals self @ [reg]\<rparr>))"

text \<open>\<open>VCDModule.update_module\<close>.\<close>

definition update_module :: "VCDModule \<Rightarrow> string \<Rightarrow> VCDModule" where
  "update_module self nm =
     (case module self of
        None \<Rightarrow> self\<lparr>module := Some (new_module nm), current_module := Some TopModule\<rparr>
      | Some m \<Rightarrow>
          if mname m \<noteq> nm
          then self\<lparr>shadow_modules := shadow_modules self @ [new_module nm],
                    current_module := Some (ShadowModule (length (shadow_modules self)))\<rparr>
          else self)"

text \<open>The value a change token carries: an integer, or text.\<close>

datatype change_value = IntVal int | StrVal string

definition dict_get :: "('k \<times> 'v) list \<Rightarrow> 'k \<Rightarrow> 'v option" where
  "dict_get kvs k = map_of kvs k"

text \<open>
  \<open>VCDModule.update_timing_assignment\<close>, in the order of the source: the filter on
  top-module identifiers (which reads \<open>self.module.variables\<close>), the conversion of the
  timestamp (which reads \<open>self.timescale\<close>), the lookup with its \<open>sys.exit(-1)\<close>, the
  textual value, and the update.
\<close>

definition is_reg_top_module :: "VCDModule \<Rightarrow> string \<Rightarrow> py_error + bool" where
  "is_reg_top_module self ident =
     (case module self of
        None \<Rightarrow> Inl AttributeError
      | Some m \<Rightarrow> Inr (dict_get (variables m) ident \<noteq> None))"

definition update_timing_assignment ::
  "VCDModule \<Rightarrow> int \<Rightarrow> string \<Rightarrow> change_value \<Rightarrow> bool \<Rightarrow> py_error + VCDModule" where
  "update_timing_assignment self timestamp ident v full =
     bnd (if full then Inr False
          else bnd (is_reg_top_module self ident) (\<lambda>b. Inr (\<not> b))) (\<lambda>skip.
       if skip then Inr self
       else case timescale self of
              None \<Rightarrow> Inl AttributeError
            | Some ts \<Rightarrow>
                bnd (convert_to ts timestamp ''ns'') (\<lambda>time_value.
                  case module self of
                    None \<Rightarrow> Inl AttributeError
                  | Some m \<Rightarrow>
                      (case dict_get (variables m) ident of
                         None \<Rightarrow> Inl SystemExit
                       | Some i \<Rightarrow>
                           (case v of
                              StrVal s \<Rightarrow>
                                Inr (self\<lparr>signals :=
                                            (signals self)[i := tag (signals self ! i) True]\<rparr>)
                            | IntVal n \<Rightarrow>
                                (case update (signals self ! i) timestamp n of
                                   (Inl e, r') \<Rightarrow> Inl e
                                 | (Inr u, r') \<Rightarrow>
                                     Inr (self\<lparr>signals := (signals self)[i := r']\<rparr>))))))"

text \<open>
  \<open>Module.export_pwl\<close>: every variable's text followed by a line break, in the order
  of the dictionary. \<open>regs\<close> is the document's \<open>signals\<close>.
\<close>

fun export_vars ::
  "(expr_arg \<Rightarrow> string) \<Rightarrow> Register list \<Rightarrow> TimeScale option \<Rightarrow> (string \<Rightarrow> int option) \<Rightarrow>
   string \<Rightarrow> (string \<times> nat) list \<Rightarrow> py_error + string" where
  "export_vars pr regs tsc expr acc [] = Inr acc"
| "export_vars pr regs tsc expr acc ((ident, i) # rest) =
     bnd (generate_piecewise_linear pr (regs ! i) tsc expr) (\<lambda>txt.
     export_vars pr regs tsc expr (acc @ txt @ newline) rest)"

definition module_export_pwl ::
  "(expr_arg \<Rightarrow> string) \<Rightarrow> Register list \<Rightarrow> Module \<Rightarrow> TimeScale option \<Rightarrow>
   (string \<Rightarrow> int option) \<Rightarrow> py_error + string" where
  "module_export_pwl pr regs m tsc expr = export_vars pr regs tsc expr '''' (variables m)"

text \<open>
  \<open>VCDModule.export_pwl\<close>; the result is the text written to the output file.
\<close>

definition export_pwl ::
  "(expr_arg \<Rightarrow> string) \<Rightarrow> VCDModule \<Rightarrow> (string \<Rightarrow> int option) \<Rightarrow> py_error + string" where
  "export_pwl pr self expr =
     (case module self of
        None \<Rightarrow> Inl AttributeError
      | Some m \<Rightarrow> module_export_pwl pr (signals self) m (timescale self) expr)"

section \<open>dataflow/parser.py\<close>

text \<open>
  The tokens of the lexer, with the fields the parser reads. \<open>TIMESCALE\<close> carries the
  text \<open>str(_toc.data)\<close>; \<open>VAR\<close> carries type, size, identifier code and reference;
  \<open>OTHER\<close> stands for every kind the parser has no branch for.
\<close>

datatype var_type = VarReg | VarWire | VarOther

datatype token =
    DATE string
  | VERSION string
  | TIMESCALE string
  | SCOPE string
  | UPSCOPE
  | VAR var_type nat string string
  | CHANGE_TIME int
  | CHANGE_SCALAR string change_value
  | CHANGE_VECTOR string change_value
  | DUMPVAR
  | OTHER

text \<open>The local variables of \<open>_parse_group\<close>.\<close>

record parser_state =
  top_vcd :: VCDModule
  scope :: "string option"
  timestamp :: int

text \<open>The branch for \<open>CHANGE_SCALAR\<close> and \<open>CHANGE_VECTOR\<close>.\<close>

definition parse_change ::
  "parser_state \<Rightarrow> string \<Rightarrow> change_value \<Rightarrow> bool \<Rightarrow> py_error + parser_state" where
  "parse_change st ident v full =
     bnd (case v of
            IntVal n \<Rightarrow> Inr (IntVal n)
          | StrVal s \<Rightarrow>
              if CHR ''x'' \<in> set s \<or> CHR ''z'' \<in> set s then Inr (StrVal s)
              else (case py_int s of None \<Rightarrow> Inl ValueError | Some n \<Rightarrow> Inr (IntVal n)))
       (\<lambda>v'.
     bnd (update_timing_assignment (top_vcd st) (timestamp st) ident v' full) (\<lambda>doc'.
     Inr (st\<lparr>top_vcd := doc'\<rparr>)))"

text \<open>
  The body of the \<open>while\<close> loop for one token. The debug message of \<open>CHANGE_TIME\<close>
  reads \<open>top.timescale.base_unit\<close>, which raises when no timescale was set.
\<close>

fun parse_token :: "bool \<Rightarrow> parser_state \<Rightarrow> token \<Rightarrow> py_error + parser_state" where
  "parse_token full st (DATE d) = Inr (st\<lparr>top_vcd := (top_vcd st)\<lparr>date := d\<rparr>\<rparr>)"
| "parse_token full st (VERSION v) = Inr (st\<lparr>top_vcd := (top_vcd st)\<lparr>version := v\<rparr>\<rparr>)"
| "parse_token full st (TIMESCALE txt) =
     (case py_split txt of
        [b, u] \<Rightarrow>
          (case py_int b of
             None \<Rightarrow> Inl ValueError
           | Some n \<Rightarrow>
               Inr (st\<lparr>top_vcd := (top_vcd st)\<lparr>timescale := Some \<lparr>base_num = n, base_unit = u\<rparr>\<rparr>\<rparr>))
      | _ \<Rightarrow> Inl ValueError)"
| "parse_token full st (SCOPE ident) =
     Inr (st\<lparr>scope := Some ident, top_vcd := update_module (top_vcd st) ident\<rparr>)"
| "parse_token full st UPSCOPE = Inr (st\<lparr>scope := None\<rparr>)"
| "parse_token full st (VAR ty sz id_code reference) =
     (case ty of
        VarReg \<Rightarrow>
          bnd (add_reg (top_vcd st) (new_register False reference sz) id_code) (\<lambda>doc'.
          Inr (st\<lparr>top_vcd := doc'\<rparr>))
      | VarWire \<Rightarrow>
          bnd (add_reg (top_vcd st) (new_register True reference sz) id_code) (\<lambda>doc'.
          Inr (st\<lparr>top_vcd := doc'\<rparr>))
      | VarOther \<Rightarrow> Inr st)"
| "parse_token full st (CHANGE_TIME t) =
     (case timescale (top_vcd st) of
        None \<Rightarrow> Inl AttributeError
      | Some _ \<Rightarrow> Inr (st\<lparr>timestamp := t\<rparr>))"
| "parse_token full st (CHANGE_SCALAR id_code v) = parse_change st id_code v full"
| "parse_token full st (CHANGE_VECTOR id_code v) = parse_change st id_code v full"
| "parse_token full st DUMPVAR = Inr st"
| "parse_token full st OTHER = Inr st"

fun parse_tokens :: "bool \<Rightarrow> parser_state \<Rightarrow> token list \<Rightarrow> py_error + parser_state" where
  "parse_tokens full st [] = Inr st"
| "parse_tokens full st (tok # toks) =
     bnd (parse_token full st tok) (\<lambda>st'. parse_tokens full st' toks)"

text \<open>
  How the token iterator ends: \<open>next\<close> raises \<open>StopIteration\<close> at the end of the
  input, or the lexer raises another exception.
\<close>

datatype stream_end = StopIteration | LexerRaises py_error

text \<open>
  \<open>VCDParser._parse_group\<close>: the loop runs until \<open>next\<close> raises; \<open>StopIteration\<close>
  returns the document.
\<close>

definition initial_state :: "VCDModule option \<Rightarrow> string option \<Rightarrow> parser_state" where
  "initial_state top0 scope0 =
     \<lparr>top_vcd = (case top0 of None \<Rightarrow> new_VCDModule | Some t \<Rightarrow> t),
      scope = scope0, timestamp = 0\<rparr>"

definition parse_group ::
  "VCDModule option \<Rightarrow> string option \<Rightarrow> bool \<Rightarrow> token list \<Rightarrow> stream_end \<Rightarrow>
   py_error + VCDModule" where
  "parse_group top0 scope0 full toks fin =
     bnd (parse_tokens full (initial_state top0 scope0) toks) (\<lambda>st.
       case fin of
         StopIteration \<Rightarrow> Inr (top_vcd st)
       | LexerRaises e \<Rightarrow> Inl e)"

text \<open>
  \<open>VCDParser.parse\<close>: an \<open>AssertionError\<close> is logged and \<open>None\<close> is returned;
  every other exception leaves the method.
\<close>

datatype parse_result =
    Document VCDModule
  | ParseFailure string
  | Raised py_error

definition parse :: "token list \<Rightarrow> stream_end \<Rightarrow> parse_result" where
  "parse toks fin =
     (case parse_group None None False toks fin of
        Inr doc \<Rightarrow> Document doc
      | Inl (AssertionError msg) \<Rightarrow> ParseFailure (''Parser Error. '' @ msg)
      | Inl e \<Rightarrow> Raised e)"

section \<open>Auxiliary definitions for the statements\<close>

text \<open>
  What \<open>eval_expr\<close> makes of one token when the multiplier is \<open>1\<close>: a token that
  reads as a float is printed as a float with the unit behind it, any other is kept.
\<close>

definition render_token :: "string \<Rightarrow> string \<Rightarrow> string" where
  "render_token u a = (case py_float a of None \<Rightarrow> a | Some x \<Rightarrow> float_repr x @ u)"

text \<open>
  The conversion as the specification words it, with the factor \<open>base_num\<close>:
  \<open>round(ticks * base_num * (unit_table[target] / unit_table[base_unit]), 3)\<close>.
\<close>

definition convert_spec :: "TimeScale \<Rightarrow> int \<Rightarrow> string \<Rightarrow> py_error + pyfloat" where
  "convert_spec ts ticks target =
     (case (unit_conversion target, unit_conversion (base_unit ts)) of
        (Some a, Some b) \<Rightarrow>
          Inr (py_round (of_int ticks * of_int (base_num ts) * (a / b)) TIMESCALE_ROUNDING)
      | _ \<Rightarrow> Inl TypeError)"

text \<open>
  The state in which \<open>VCDParser.parse\<close> starts the loop: a fresh document, no scope
  name, tick 0.
\<close>

definition start :: parser_state where
  "start = initial_state None None"

text \<open>A token other than a scope-open.\<close>

definition not_scope_open :: "token \<Rightarrow> bool" where
  "not_scope_open tok = (case tok of SCOPE nm \<Rightarrow> False | _ \<Rightarrow> True)"

text \<open>The positions in \<open>signals\<close> of the registers a module holds.\<close>

definition module_regs :: "Module \<Rightarrow> nat set" where
  "module_regs m = snd ` set (variables m)"

text \<open>
  What holds of every document the parser builds: the positions a module holds exist in
  \<open>signals\<close>, \<open>current_module\<close> refers to an existing module, and no register of a
  shadow module is also held by the top module.
\<close>

definition doc_inv :: "VCDModule \<Rightarrow> bool" where
  "doc_inv d =
     ((case module d of
         None \<Rightarrow> current_module d \<noteq> Some TopModule
       | Some m \<Rightarrow>
           list_all (\<lambda>i. i < length (signals d)) (map snd (variables m)) \<and>
           list_all (\<lambda>s. module_regs s \<inter> module_regs m = {}) (shadow_modules d))
      \<and> list_all (\<lambda>s. list_all (\<lambda>i. i < length (signals d)) (map snd (variables s)))
           (shadow_modules d)
      \<and> (case current_module d of
            Some (ShadowModule k) \<Rightarrow> k < length (shadow_modules d)
          | _ \<Rightarrow> True))"

text \<open>
  A stand-in for \<open>str(sympify(e))\<close>, used in the worked examples only; the general
  theorems hold for every printer. sympy prints a float of magnitude at least one with
  fifteen significant digits (\<open>5.0\<close> as \<open>5.00000000000000\<close>) and the sum of a number
  and a symbol with the symbol first (\<open>5.0 + trf\<close> as \<open>trf + 5.0\<close>).
\<close>

fun pad_digits :: "nat \<Rightarrow> rat \<Rightarrow> string" where
  "pad_digits 0 x = []"
| "pad_digits (Suc n) x =
     digit_char (nat \<lfloor>x * 10\<rfloor>) # pad_digits n (x * 10 - of_int \<lfloor>x * 10\<rfloor>)"

definition sympy_print :: "expr_arg \<Rightarrow> string" where
  "sympy_print e =
     (case e of
        FloatArg x \<Rightarrow>
          (let ip = str_nat (nat \<lfloor>\<bar>x\<bar>\<rfloor>)
           in (if x < 0 then ''-'' else '''') @ ip @ ''.'' @
              pad_digits (15 - length ip) (\<bar>x\<bar> - of_int \<lfloor>\<bar>x\<bar>\<rfloor>))
      | StrArg s \<Rightarrow>
          (case py_split s of
             [a, p, b] \<Rightarrow>
               if p = ''+'' \<and> py_float a \<noteq> None \<and> py_float b = None then b @ '' + '' @ a else s
           | _ \<Rightarrow> s))"

text \<open>
  The trace of the examples: a one-bit register \<open>A\<close> (or \<open>CLK\<close>) that is 0 at tick 0
  and 1 at tick 5, under the timescale \<open>1 ns\<close>.
\<close>

definition ns1 :: TimeScale where
  "ns1 = \<lparr>base_num = 1, base_unit = ''ns''\<rparr>"

definition rising :: "string \<Rightarrow> Register" where
  "rising nm = snd (update (snd (update (new_register False nm 1) 0 0)) 5 1)"

text \<open>The exceptions a token handler of the parser can raise.\<close>

definition handler_error :: "py_error \<Rightarrow> bool" where
  "handler_error e = (e = ValueError \<or> e = TypeError \<or> e = AttributeError \<or> e = SystemExit)"

text \<open>
  Two traces for the examples: a one-bit register that receives the two-bit value
  \<open>b10\<close>, and a trace whose timescale is given in femtoseconds, a unit of the VCD
  format that the table of \<open>TimeScale\<close> lacks.
\<close>

definition trace_wide :: "token list" where
  "trace_wide = [TIMESCALE ''1 ns'', SCOPE ''top'', VAR VarReg 1 ''!'' ''a'', UPSCOPE,
                 CHANGE_TIME 0, CHANGE_VECTOR ''!'' (IntVal 2)]"

definition trace_fs :: "token list" where
  "trace_fs = [TIMESCALE ''1 fs'', SCOPE ''top'', VAR VarReg 1 ''!'' ''a'', UPSCOPE,
               CHANGE_TIME 0, CHANGE_SCALAR ''!'' (StrVal ''0'')]"

text \<open>What the caller of the parser sees of a run: the exception, or the document.\<close>

definition doc_of :: "py_error + parser_state \<Rightarrow> py_error + VCDModule" where
  "doc_of r = map_sum id top_vcd r"

text \<open>
  A trace for the examples: the register \<open>a\<close> of the top scope receives 0 at tick 0,
  \<open>x\<close> at tick 3 and 1 at tick 5; the register \<open>b\<close> of the top scope receives 1 at
  tick 0; the register \<open>c\<close> belongs to the scope \<open>sub\<close> opened after the top scope.
\<close>

definition trace_x_pre :: "token list" where
  "trace_x_pre =
     [TIMESCALE ''1 ns'', SCOPE ''top'', VAR VarReg 1 ''!'' ''a'', VAR VarReg 1 ''#'' ''b'',
      SCOPE ''sub'', VAR VarReg 1 ''$'' ''c'', UPSCOPE, UPSCOPE,
      CHANGE_TIME 0, CHANGE_SCALAR ''!'' (StrVal ''0''), CHANGE_SCALAR ''#'' (StrVal ''1''),
      CHANGE_TIME 3]"

definition trace_x_post :: "token list" where
  "trace_x_post = [CHANGE_TIME 5, CHANGE_SCALAR ''!'' (StrVal ''1'')]"

definition state_x_pre :: parser_state where
  "state_x_pre =
     \<lparr>top_vcd =
        \<lparr>date = '''', version = '''',
         timescale = Some ns1,
         module = Some \<lparr>mname = ''top'', variables = [(''!'', 0), (''#'', 1)]\<rparr>,
         current_module = Some (ShadowModule 0),
         shadow_modules = [\<lparr>mname = ''sub'', variables = [(''$'', 2)]\<rparr>],
         signals =
           [(new_register False ''a'' 1)\<lparr>data := [0], timing_assignments := [(0, [0])]\<rparr>,
            (new_register False ''b'' 1)\<lparr>data := [1], timing_assignments := [(0, [1])]\<rparr>,
            new_register False ''c'' 1],
         sig_map = [(''!'', ''a''), (''#'', ''b''), (''$'', ''c'')]\<rparr>,
      scope = None, timestamp = 3\<rparr>"

definition state_x_mid :: parser_state where
  "state_x_mid =
     state_x_pre\<lparr>top_vcd := (top_vcd state_x_pre)\<lparr>signals :=
       (signals (top_vcd state_x_pre))
         [0 := (signals (top_vcd state_x_pre) ! 0)\<lparr>export_pwl_safe := False\<rparr>]\<rparr>\<rparr>"

definition state_x_post :: parser_state where
  "state_x_post =
     state_x_pre\<lparr>top_vcd := (top_vcd state_x_pre)\<lparr>signals :=
       [(new_register False ''a'' 1)
          \<lparr>data := [1], timing_assignments := [(0, [0]), (5, [1])], export_pwl_safe := False\<rparr>,
        (new_register False ''b'' 1)\<lparr>data := [1], timing_assignments := [(0, [1])]\<rparr>,
        new_register False ''c'' 1]\<rparr>,
       timestamp := 5\<rparr>"

definition expr0 :: "string \<Rightarrow> int option" where
  "expr0 = [''trf'' \<mapsto> 0, ''tcrf'' \<mapsto> 0]"

section \<open>Lemmas on the helpers\<close>

lemma bnd_Inr [simp]: "bnd (Inr x) f = f x"
  by (simp add: bnd_def)

lemma bnd_Inl [simp]: "bnd (Inl e) f = Inl e"
  by (simp add: bnd_def)

lemma bnd_eq_Inr: "bnd m f = Inr y \<longleftrightarrow> (\<exists>x. m = Inr x \<and> f x = Inr y)"
  by (cases m) simp_all

lemma map_of_dict_set: "map_of (dict_set kvs k v) k = Some v"
  by (induction kvs) auto

lemma nat_bit_length_le: "nat_bit_length n \<le> w \<longleftrightarrow> n < 2 ^ w"
proof (induction w arbitrary: n)
  case 0
  show ?case by (subst nat_bit_length.simps) simp
next
  case (Suc w)
  show ?case
  proof (cases "n = 0")
    case True
    then show ?thesis by (subst nat_bit_length.simps) simp
  next
    case False
    have "nat_bit_length n = Suc (nat_bit_length (n div 2))"
      using False by (subst nat_bit_length.simps) simp
    moreover have "n div 2 < 2 ^ w \<longleftrightarrow> n < 2 ^ Suc w" by auto
    ultimately show ?thesis using Suc.IH [of "n div 2"] by simp
  qed
qed

lemma bit_length_gt: "width r < bit_length v \<longleftrightarrow> 2 ^ width r \<le> \<bar>v\<bar>"
proof -
  have a: "nat_bit_length (nat \<bar>v\<bar>) \<le> width r \<longleftrightarrow> nat \<bar>v\<bar> < 2 ^ width r"
    by (rule nat_bit_length_le)
  have b: "nat \<bar>v\<bar> < 2 ^ width r \<longleftrightarrow> \<bar>v\<bar> < 2 ^ width r"
    by (simp add: nat_less_iff)
  show ?thesis
    unfolding bit_length_def using a b by auto
qed

section \<open>Signal update\<close>

text \<open>
  Claim C8. \<open>Register.update\<close> raises \<open>ValueError\<close> exactly when the value's bit length
  exceeds the width, that is when \<open>2 ^ width \<le> |v|\<close>; the register is then left as it
  was, timeline and \<open>data\<close> included. Otherwise the call succeeds and the timeline maps
  the tick to the new bit array of \<open>width\<close> entries, which is also the new \<open>data\<close>.
\<close>

theorem update_value_too_wide:
  "(fst (update r t v) = Inl ValueError) = (width r < bit_length v)
   \<and> (width r < bit_length v) = (2 ^ width r \<le> \<bar>v\<bar>)
   \<and> (width r < bit_length v \<longrightarrow> snd (update r t v) = r)
   \<and> (\<not> width r < bit_length v \<longrightarrow>
        fst (update r t v) = Inr () \<and>
        map_of (timing_assignments (snd (update r t v))) t = Some (data (snd (update r t v))) \<and>
        length (data (snd (update r t v))) = width r)"
  using bit_length_gt [of r v]
  by (simp add: update_def int2bit_array_def map_of_dict_set)

text \<open>
  A four-bit register: the value 16 needs five bits and is refused, the value 5 is stored
  as \<open>0101\<close>.
\<close>

theorem update_value_too_wide_witness:
  "fst (update (new_register False ''DATA'' 4) 7 16) = Inl ValueError
   \<and> snd (update (new_register False ''DATA'' 4) 7 16) = new_register False ''DATA'' 4
   \<and> fst (update (new_register False ''DATA'' 4) 7 5) = Inr ()
   \<and> timing_assignments (snd (update (new_register False ''DATA'' 4) 7 5)) = [(7, [0, 1, 0, 1])]"
proof -
  have wide: "width (new_register False ''DATA'' 4) < bit_length 16"
    by code_simp
  have fits: "\<not> width (new_register False ''DATA'' 4) < bit_length 5"
    by code_simp
  have tl: "timing_assignments (snd (update (new_register False ''DATA'' 4) 7 5)) = [(7, [0, 1, 0, 1])]"
    by code_simp
  show ?thesis
    using wide fits tl
      update_value_too_wide [of "new_register False ''DATA'' 4" 7 16]
      update_value_too_wide [of "new_register False ''DATA'' 4" 7 5]
    by blast
qed

section \<open>The emitter's loop\<close>

lemma str_mul_one [simp]: "str_mul s 1 = s"
  by (simp add: str_mul_def)

lemma render_arg_one: "render_arg (Some 1) u a = Inr (render_token u a)"
  by (simp add: render_arg_def render_token_def split: option.splits)

lemma render_args_one: "render_args (Some 1) u as = Inr (map (render_token u) as)"
  by (induction as) (simp_all add: render_arg_one)

lemma eval_expr_one:
  "u \<noteq> [] \<Longrightarrow>
   eval_expr pr e (Some 1) (Some u) =
     Inr (Text (py_join '' '' (map (render_token u) (py_split (pr e)))))"
  by (simp add: eval_expr_def render_args_one)

lemma unit_conversion_ns [simp]: "unit_conversion ''ns'' = Some (10 ^ 9)"
  by (simp add: unit_conversion_def)

lemma convert_to_ns:
  "unit_conversion (base_unit ts) \<noteq> None \<Longrightarrow> \<exists>t. convert_to ts tick ''ns'' = Inr t"
  by (cases "unit_conversion (base_unit ts)") (simp_all add: convert_to_def)

lemma crnt_level_cases: "crnt_level b m = Inr lv \<Longrightarrow> lv = ''vvdd'' \<or> lv = ''0''"
  by (auto simp: crnt_level_def split: if_splits)

lemma crnt_level_not_na: "crnt_level b m = Inr lv \<Longrightarrow> lv \<noteq> ''na''"
  by (auto dest: crnt_level_cases)

lemma pwl_step_same:
  "crnt_level b m = Inr lv \<Longrightarrow> pwl_step pr tsc expr nm m (line, lv) (t, b) = Inr (line, lv)"
  by (frule crnt_level_not_na) (simp add: pwl_step_def)

lemma pwl_step_prev:
  "pwl_step pr tsc expr nm m st (t, b) = Inr st' \<Longrightarrow> crnt_level b m = Inr (snd st')"
  by (auto simp: pwl_step_def bnd_eq_Inr split: if_splits)

lemma pwl_walk_append:
  "pwl_walk pr tsc expr nm m st (xs @ ys) =
     bnd (pwl_walk pr tsc expr nm m st xs) (\<lambda>st'. pwl_walk pr tsc expr nm m st' ys)"
proof (induction xs arbitrary: st)
  case Nil
  show ?case by simp
next
  case (Cons x xs)
  show ?case
    by (cases "pwl_step pr tsc expr nm m st x") (simp_all add: Cons.IH)
qed

lemma pwl_walk_repeat:
  assumes "crnt_level b1 m = Inr lv" "crnt_level b2 m = Inr lv"
  shows "pwl_walk pr tsc expr nm m st ((t1, b1) # (t2, b2) # ys) =
         pwl_walk pr tsc expr nm m st ((t1, b1) # ys)"
proof (cases "pwl_step pr tsc expr nm m st (t1, b1)")
  case (Inl e)
  then show ?thesis by simp
next
  case (Inr st1)
  then have "snd st1 = lv"
    using assms(1) pwl_step_prev [of pr tsc expr nm m st t1 b1 st1] by simp
  then have "pwl_step pr tsc expr nm m st1 (t2, b2) = Inr st1"
    using pwl_step_same [OF assms(2), of pr tsc expr nm "fst st1" t2] by (cases st1) simp
  with Inr show ?thesis by simp
qed

lemma pwl_lines_all_ok:
  "(\<And>m. m \<in> set ms \<Longrightarrow> pwl_line pr r tsc expr m = Inr (f m)) \<Longrightarrow>
   pwl_lines pr r tsc expr acc ms = Inr (acc @ concat (map f ms))"
  by (induction ms arbitrary: acc) simp_all

section \<open>The form of a transition\<close>

text \<open>
  Claim C1, as the code has it. At a tick whose level differs from the previous one (and
  the previous one is not \<open>na\<close>), under a timescale whose unit is in the table, the loop
  appends one segment and never raises. \<open>rf\<close> is \<open>tcrf\<close> for the name \<open>CLK\<close> and
  \<open>trf\<close> otherwise. When \<open>expr\<close> maps \<open>rf\<close> to \<open>0\<close> the segment is the ramp
  \<open>'t' previous 't_rf' level\<close>, where \<open>t_rf\<close> formats \<open>t + rf\<close> with the name of the
  parameter, not its value; for every other value, and for a missing key, it is the step
  \<open>'t' level\<close>.
\<close>

theorem transition_segment:
  assumes "prev \<noteq> ''na''" and "crnt_level bits m = Inr crnt_v" and "crnt_v \<noteq> prev"
    and "unit_conversion (base_unit ts) \<noteq> None"
  shows "\<exists>t t_expr t_rf.
           convert_to ts tick ''ns'' = Inr t
         \<and> eval_expr pr (FloatArg t) (Some 1) (Some ''ns'') = Inr (Text t_expr)
         \<and> eval_expr pr (StrArg (float_str t @ '' + '' @ rf_identifier nm)) (Some 1) (Some ''ns'')
             = Inr (Text t_rf)
         \<and> pwl_step pr (Some ts) expr nm m (line, prev) (tick, bits) =
             Inr (line @
                  (if expr (rf_identifier nm) = Some 0
                   then quote @ t_expr @ quote @ '' '' @ prev @ '' '' @
                        quote @ t_rf @ quote @ '' '' @ crnt_v @ '' ''
                   else quote @ t_expr @ quote @ '' '' @ crnt_v @ '' ''),
                  crnt_v)"
proof -
  obtain t where t: "convert_to ts tick ''ns'' = Inr t"
    using convert_to_ns [OF assms(4)] by blast
  have ns: "''ns'' \<noteq> []" by simp
  define t_expr where
    "t_expr = py_join '' '' (map (render_token ''ns'') (py_split (pr (FloatArg t))))"
  define t_rf where
    "t_rf = py_join '' '' (map (render_token ''ns'')
              (py_split (pr (StrArg (float_str t @ '' + '' @ rf_identifier nm)))))"
  have e1: "eval_expr pr (FloatArg t) (Some 1) (Some ''ns'') = Inr (Text t_expr)"
    unfolding t_expr_def by (rule eval_expr_one [OF ns])
  have e2: "eval_expr pr (StrArg (float_str t @ '' + '' @ rf_identifier nm)) (Some 1) (Some ''ns'')
            = Inr (Text t_rf)"
    unfolding t_rf_def by (rule eval_expr_one [OF ns])
  have tr: "pwl_transition pr (Some ts) expr nm tick prev crnt_v =
            Inr (if expr (rf_identifier nm) = Some 0
                 then quote @ t_expr @ quote @ '' '' @ prev @ '' '' @
                      quote @ t_rf @ quote @ '' '' @ crnt_v @ '' ''
                 else quote @ t_expr @ quote @ '' '' @ crnt_v @ '' '')"
    unfolding pwl_transition_def Let_def
    using e2 by (simp add: t e1 result_str_def)
  have "pwl_step pr (Some ts) expr nm m (line, prev) (tick, bits) =
             Inr (line @
                  (if expr (rf_identifier nm) = Some 0
                   then quote @ t_expr @ quote @ '' '' @ prev @ '' '' @
                        quote @ t_rf @ quote @ '' '' @ crnt_v @ '' ''
                   else quote @ t_expr @ quote @ '' '' @ crnt_v @ '' ''),
                  crnt_v)"
    using assms(1,2,3) by (simp add: pwl_step_def tr)
  with t e1 e2 show ?thesis by blast
qed

text \<open>
  The signal \<open>CLK\<close> rising at tick 5, with \<open>tcrf = 0\<close> and \<open>trf = 1\<close>: the parameter
  chosen is \<open>tcrf\<close>, and the segment is the ramp.
\<close>

theorem transition_segment_witness:
  "''0'' \<noteq> ''na'' \<and> crnt_level [1] 0 = Inr ''vvdd'' \<and> ''vvdd'' \<noteq> ''0''
   \<and> unit_conversion (base_unit ns1) \<noteq> None
   \<and> pwl_step sympy_print (Some ns1) [''trf'' \<mapsto> 1, ''tcrf'' \<mapsto> 0] ''CLK'' 0
        (''VCLK CLK 0 pwl(0 0'' @ newline @ ''+'', ''0'') (5, [1]) =
      Inr (''VCLK CLK 0 pwl(0 0'' @ newline @ ''+'' @ quote @ ''5.0ns'' @ quote @ '' 0 '' @
           quote @ ''tcrf + 5.0ns'' @ quote @ '' vvdd '', ''vvdd'')"
proof -
  have h1: "''0'' \<noteq> ''na''" by simp
  have h2: "crnt_level [1] 0 = Inr ''vvdd''" by code_simp
  have h3: "''vvdd'' \<noteq> ''0''" by simp
  have h4: "unit_conversion (base_unit ns1) \<noteq> None" by code_simp
  have c: "convert_to ns1 5 ''ns'' = Inr 5" by code_simp
  have e1: "eval_expr sympy_print (FloatArg 5) (Some 1) (Some ''ns'') = Inr (Text ''5.0ns'')"
    by code_simp
  have e2: "eval_expr sympy_print (StrArg (float_str 5 @ '' + '' @ rf_identifier ''CLK''))
              (Some 1) (Some ''ns'') = Inr (Text ''tcrf + 5.0ns'')"
    by code_simp
  have z: "[''trf'' \<mapsto> 1, ''tcrf'' \<mapsto> (0::int)] (rf_identifier ''CLK'') = Some 0"
    by code_simp
  obtain t t_expr t_rf where
    t: "convert_to ns1 5 ''ns'' = Inr t" and
    te: "eval_expr sympy_print (FloatArg t) (Some 1) (Some ''ns'') = Inr (Text t_expr)" and
    tr: "eval_expr sympy_print (StrArg (float_str t @ '' + '' @ rf_identifier ''CLK''))
           (Some 1) (Some ''ns'') = Inr (Text t_rf)" and
    st: "pwl_step sympy_print (Some ns1) [''trf'' \<mapsto> 1, ''tcrf'' \<mapsto> 0] ''CLK'' 0
           (''VCLK CLK 0 pwl(0 0'' @ newline @ ''+'', ''0'') (5, [1]) =
         Inr ((''VCLK CLK 0 pwl(0 0'' @ newline @ ''+'') @
              (if [''trf'' \<mapsto> 1, ''tcrf'' \<mapsto> (0::int)] (rf_identifier ''CLK'') = Some 0
               then quote @ t_expr @ quote @ '' '' @ ''0'' @ '' '' @
                    quote @ t_rf @ quote @ '' '' @ ''vvdd'' @ '' ''
               else quote @ t_expr @ quote @ '' '' @ ''vvdd'' @ '' ''),
              ''vvdd'')"
    using transition_segment [OF h1 h2 h3 h4, of 5 sympy_print "''CLK''"
        "[''trf'' \<mapsto> 1, ''tcrf'' \<mapsto> 0]" "''VCLK CLK 0 pwl(0 0'' @ newline @ ''+''"]
    by blast
  have "t = 5" using t c by simp
  then have "t_expr = ''5.0ns''" "t_rf = ''tcrf + 5.0ns''"
    using te tr e1 e2 by simp_all
  then have "pwl_step sympy_print (Some ns1) [''trf'' \<mapsto> 1, ''tcrf'' \<mapsto> 0] ''CLK'' 0
        (''VCLK CLK 0 pwl(0 0'' @ newline @ ''+'', ''0'') (5, [1]) =
      Inr (''VCLK CLK 0 pwl(0 0'' @ newline @ ''+'' @ quote @ ''5.0ns'' @ quote @ '' 0 '' @
           quote @ ''tcrf + 5.0ns'' @ quote @ '' vvdd '', ''vvdd'')"
    using st z by (simp only: if_True append_assoc) simp
  with h1 h2 h3 h4 show ?thesis by blast
qed

text \<open>
  Against the claim as stated: it has the step for a parameter of value zero and the ramp
  for a non-zero one. For the register \<open>A\<close> rising at tick 5 the code emits the ramp
  when \<open>trf = 0\<close>, not the step, and the step when \<open>trf = 1\<close>.
\<close>

theorem step_iff_zero_counterexample:
  "generate_piecewise_linear sympy_print (rising ''A'') (Some ns1) [''trf'' \<mapsto> 0, ''tcrf'' \<mapsto> 0] =
     Inr (''VA A 0 pwl(0 0'' @ newline @ ''+'' @ quote @ ''5.0ns'' @ quote @ '' 0 '' @
          quote @ ''trf + 5.0ns'' @ quote @ '' vvdd )'' @ newline @ newline)
   \<and> generate_piecewise_linear sympy_print (rising ''A'') (Some ns1) [''trf'' \<mapsto> 0, ''tcrf'' \<mapsto> 0] \<noteq>
     Inr (''VA A 0 pwl(0 0'' @ newline @ ''+'' @ quote @ ''5.0ns'' @ quote @ '' vvdd )'' @
          newline @ newline)
   \<and> generate_piecewise_linear sympy_print (rising ''A'') (Some ns1) [''trf'' \<mapsto> 1, ''tcrf'' \<mapsto> 1] =
     Inr (''VA A 0 pwl(0 0'' @ newline @ ''+'' @ quote @ ''5.0ns'' @ quote @ '' vvdd )'' @
          newline @ newline)"
  by code_simp

section \<open>Transition compression\<close>

text \<open>
  Claim C9. A tick whose level at index \<open>m\<close> equals the previous level adds nothing to
  the line: the loop's state is unchanged by it. Hence a timeline with two consecutive
  ticks of equal level yields, for that index, the same walk and the same directive as
  the timeline without the second tick. The level of a tick is \<open>vvdd\<close> or \<open>0\<close>, never
  \<open>na\<close>.
\<close>

theorem transition_compression:
  "crnt_level b1 m = Inr lv \<and> crnt_level b2 m = Inr lv \<longrightarrow>
     pwl_step pr tsc expr nm m (line, lv) (t2, b2) = Inr (line, lv)
     \<and> pwl_walk pr tsc expr nm m st (xs @ (t1, b1) # (t2, b2) # ys) =
       pwl_walk pr tsc expr nm m st (xs @ (t1, b1) # ys)
     \<and> pwl_line pr (r\<lparr>timing_assignments := xs @ (t1, b1) # (t2, b2) # ys\<rparr>) tsc expr m =
       pwl_line pr (r\<lparr>timing_assignments := xs @ (t1, b1) # ys\<rparr>) tsc expr m"
proof (intro impI, elim conjE)
  assume l1: "crnt_level b1 m = Inr lv" and l2: "crnt_level b2 m = Inr lv"
  have walk: "pwl_walk pr tsc expr nm' m st' (xs @ (t1, b1) # (t2, b2) # ys) =
       pwl_walk pr tsc expr nm' m st' (xs @ (t1, b1) # ys)" for nm' st'
    by (simp only: pwl_walk_append pwl_walk_repeat [OF l1 l2])
  have "pwl_line pr (r\<lparr>timing_assignments := xs @ (t1, b1) # (t2, b2) # ys\<rparr>) tsc expr m =
       pwl_line pr (r\<lparr>timing_assignments := xs @ (t1, b1) # ys\<rparr>) tsc expr m"
    by (simp add: pwl_line_def pwl_name_def walk)
  then show "pwl_step pr tsc expr nm m (line, lv) (t2, b2) = Inr (line, lv)
     \<and> pwl_walk pr tsc expr nm m st (xs @ (t1, b1) # (t2, b2) # ys) =
       pwl_walk pr tsc expr nm m st (xs @ (t1, b1) # ys)
     \<and> pwl_line pr (r\<lparr>timing_assignments := xs @ (t1, b1) # (t2, b2) # ys\<rparr>) tsc expr m =
       pwl_line pr (r\<lparr>timing_assignments := xs @ (t1, b1) # ys\<rparr>) tsc expr m"
    using pwl_step_same [OF l2] walk by blast
qed

text \<open>
  The register \<open>A\<close> with the levels 0, 1, 1 at the ticks 0, 5, 9: the directive has the
  initial point and one transition, as without tick 9.
\<close>

theorem transition_compression_witness:
  "crnt_level [1] 0 = Inr ''vvdd''
   \<and> pwl_line sympy_print ((rising ''A'')\<lparr>timing_assignments := [(0, [0])] @ (5, [1]) # (9, [1]) # []\<rparr>)
        (Some ns1) [''trf'' \<mapsto> 1, ''tcrf'' \<mapsto> 1] 0 =
     Inr (''VA A 0 pwl(0 0'' @ newline @ ''+'' @ quote @ ''5.0ns'' @ quote @ '' vvdd )'' @
          newline @ newline)"
proof -
  have h: "crnt_level [1] 0 = Inr ''vvdd''" by code_simp
  have e: "pwl_line sympy_print ((rising ''A'')\<lparr>timing_assignments := [(0, [0])] @ (5, [1]) # []\<rparr>)
        (Some ns1) [''trf'' \<mapsto> 1, ''tcrf'' \<mapsto> 1] 0 =
     Inr (''VA A 0 pwl(0 0'' @ newline @ ''+'' @ quote @ ''5.0ns'' @ quote @ '' vvdd )'' @
          newline @ newline)"
    by code_simp
  have "pwl_line sympy_print ((rising ''A'')\<lparr>timing_assignments := [(0, [0])] @ (5, [1]) # (9, [1]) # []\<rparr>)
        (Some ns1) [''trf'' \<mapsto> 1, ''tcrf'' \<mapsto> 1] 0 =
        pwl_line sympy_print ((rising ''A'')\<lparr>timing_assignments := [(0, [0])] @ (5, [1]) # []\<rparr>)
        (Some ns1) [''trf'' \<mapsto> 1, ''tcrf'' \<mapsto> 1] 0"
    using h transition_compression [of "[1]" 0 "''vvdd''" "[1]" sympy_print "Some ns1"
        "[''trf'' \<mapsto> 1, ''tcrf'' \<mapsto> 1]" "''A''" "''''" 9 "('''', ''na'')" "[(0, [0])]" 5 "[]" "rising ''A''"]
    by blast
  with h e show ?thesis by (simp only:) 
qed

section \<open>A signal without value changes\<close>

text \<open>
  Claim C10. A register that is safe to export and has an empty timeline yields, for
  every index of \<open>data\<close>, the header \<open>V<pwl_name> <pwl_name> 0 pwl(\<close> closed at once
  by \<open>)\<close> and two line breaks. A freshly declared register is such a register, and its
  \<open>data\<close> has \<open>width\<close> indices.
\<close>

theorem generate_empty_timeline:
  "(export_pwl_safe r \<and> timing_assignments r = [] \<longrightarrow>
      generate_piecewise_linear pr r tsc expr =
        Inr (concat (map (\<lambda>m. pwl_header (pwl_name r m) @ '')'' @ newline @ newline)
                         [0..<length (data r)])))
   \<and> generate_piecewise_linear pr (new_register w nm wd) tsc expr =
        Inr (concat (map (\<lambda>m. pwl_header (pwl_name (new_register w nm wd) m) @
                               '')'' @ newline @ newline)
                         [0..<wd]))"
proof -
  have gen: "generate_piecewise_linear pr r tsc expr =
        Inr (concat (map (\<lambda>m. pwl_header (pwl_name r m) @ '')'' @ newline @ newline)
                         [0..<length (data r)]))"
    if "export_pwl_safe r" "timing_assignments r = []" for r
  proof -
    have "pwl_line pr r tsc expr m = Inr (pwl_header (pwl_name r m) @ '')'' @ newline @ newline)"
      for m
      using that by (simp add: pwl_line_def)
    then have "pwl_lines pr r tsc expr [] [0..<length (data r)] =
        Inr ([] @ concat (map (\<lambda>m. pwl_header (pwl_name r m) @ '')'' @ newline @ newline)
                         [0..<length (data r)]))"
      by (intro pwl_lines_all_ok) simp
    then show ?thesis using that by (simp add: generate_piecewise_linear_def)
  qed
  have "export_pwl_safe (new_register w nm wd)" "timing_assignments (new_register w nm wd) = []"
    "length (data (new_register w nm wd)) = wd"
    by (simp_all add: new_register_def)
  then show ?thesis using gen [of "new_register w nm wd"] gen [of r] by simp
qed

text \<open>A two-bit wire \<open>D\<close> that never changed: two empty directives, \<open>D[1]\<close> first.\<close>

theorem generate_empty_timeline_witness:
  "export_pwl_safe (new_register True ''D'' 2) \<and> timing_assignments (new_register True ''D'' 2) = []
   \<and> generate_piecewise_linear sympy_print (new_register True ''D'' 2) None Map.empty =
       Inr (''VD[1] D[1] 0 pwl()'' @ newline @ newline @ ''VD[0] D[0] 0 pwl()'' @ newline @ newline)"
proof -
  have h: "export_pwl_safe (new_register True ''D'' 2) \<and>
           timing_assignments (new_register True ''D'' 2) = []"
    by (simp add: new_register_def)
  have e: "concat (map (\<lambda>m. pwl_header (pwl_name (new_register True ''D'' 2) m) @
                            '')'' @ newline @ newline)
                       [0..<length (data (new_register True ''D'' 2))])
        = ''VD[1] D[1] 0 pwl()'' @ newline @ newline @ ''VD[0] D[0] 0 pwl()'' @ newline @ newline"
    by code_simp
  have g: "generate_piecewise_linear sympy_print (new_register True ''D'' 2) None Map.empty =
       Inr (concat (map (\<lambda>m. pwl_header (pwl_name (new_register True ''D'' 2) m) @
                              '')'' @ newline @ newline)
                         [0..<length (data (new_register True ''D'' 2))]))"
    using h generate_empty_timeline [of "new_register True ''D'' 2" sympy_print None Map.empty]
    by blast
  have g': "generate_piecewise_linear sympy_print (new_register True ''D'' 2) None Map.empty =
       Inr (''VD[1] D[1] 0 pwl()'' @ newline @ newline @ ''VD[0] D[0] 0 pwl()'' @ newline @ newline)"
    using g by (simp only: e)
  show ?thesis
    using h g' by blast
qed

section \<open>Time conversion\<close>

text \<open>
  Claim C2 says that \<open>convert\<close> multiplies the tick count by \<open>base_num\<close>. The code does
  not: \<open>convert_to\<close> gives the same result for every \<open>base_num\<close>. Under the timescale
  \<open>10 ns\<close>, five ticks are converted to \<open>5.0\<close> nanoseconds, where the formula of the
  specification gives \<open>50.0\<close>. All float operations at this input are exact
  (\<open>1e9 / 1e9 = 1.0\<close>, \<open>5 * 1.0 = 5.0\<close>, \<open>round(5.0, 3) = 5.0\<close>).
\<close>

theorem convert_to_ignores_base_num:
  "convert_to (ts\<lparr>base_num := n\<rparr>) tick u = convert_to ts tick u
   \<and> convert_to \<lparr>base_num = 10, base_unit = ''ns''\<rparr> 5 ''ns'' = Inr 5
   \<and> convert_spec \<lparr>base_num = 10, base_unit = ''ns''\<rparr> 5 ''ns'' = Inr 50"
proof -
  have a: "convert_to (ts\<lparr>base_num := n\<rparr>) tick u = convert_to ts tick u"
    by (simp add: convert_to_def)
  have b: "convert_to \<lparr>base_num = 10, base_unit = ''ns''\<rparr> 5 ''ns'' = Inr 5"
    by code_simp
  have c: "convert_spec \<lparr>base_num = 10, base_unit = ''ns''\<rparr> 5 ''ns'' = Inr 50"
    by code_simp
  from a b c show ?thesis by blast
qed

lemma convert_to_spec_base_one:
  "base_num ts = 1 \<Longrightarrow> convert_to ts tick u = convert_spec ts tick u"
  by (simp add: convert_to_def convert_spec_def split: option.splits)

section \<open>The expression resolver\<close>

lemma is_digit_digit_char: "is_digit (digit_char d)"
proof -
  have "d mod 10 < length ''0123456789''" by simp
  then have "''0123456789'' ! (d mod 10) \<in> set ''0123456789''" by (rule nth_mem)
  then show ?thesis by (simp only: is_digit_def digit_char_def)
qed

lemma digit_char_nonzero: "0 < d \<Longrightarrow> d < 10 \<Longrightarrow> digit_char d \<noteq> CHR ''0''"
proof -
  assume "0 < d" "d < 10"
  then have "d \<in> {1, 2, 3, 4, 5, 6, 7, 8, 9}" by auto
  then show ?thesis by (auto simp: digit_char_def)
qed

lemma str_int_digits: "list_all is_digit (str_int n)"
proof (induction n rule: str_int.induct)
  case (1 n)
  show ?case
  proof (cases "n < 10")
    case True
    then show ?thesis by (subst str_int.simps) (simp add: is_digit_digit_char)
  next
    case False
    with 1 show ?thesis by (subst str_int.simps) (simp add: is_digit_digit_char)
  qed
qed

lemma str_int_not_Nil: "str_int n \<noteq> []"
  by (subst str_int.simps) simp

lemma str_int_nonzero: "0 < n \<Longrightarrow> \<exists>c \<in> set (str_int n). c \<noteq> CHR ''0''"
proof (induction n rule: str_int.induct)
  case (1 n)
  show ?case
  proof (cases "n < 10")
    case True
    with 1(2) have "0 < nat n" "nat n < 10" by auto
    then have "digit_char (nat n) \<noteq> CHR ''0''" by (rule digit_char_nonzero)
    with True show ?thesis by (subst str_int.simps) simp
  next
    case False
    then have "0 < n div 10" by simp
    with 1(1) False obtain c where "c \<in> set (str_int (n div 10))" "c \<noteq> CHR ''0''" by blast
    with False show ?thesis by (subst str_int.simps) auto
  qed
qed

lemma str_int_long: "10 \<le> n \<Longrightarrow> 2 \<le> length (str_int n)"
proof -
  assume "10 \<le> n"
  then have "str_int n = str_int (n div 10) @ [digit_char (nat (n mod 10))]"
    by (subst str_int.simps) simp
  moreover have "1 \<le> length (str_int (n div 10))"
    using str_int_not_Nil [of "n div 10"] by (cases "str_int (n div 10)") simp_all
  ultimately show ?thesis by simp
qed

lemma strip_zeros_digits: "list_all is_digit s \<Longrightarrow> list_all is_digit (strip_zeros s)"
  by (auto simp: strip_zeros_def list_all_iff dest: set_dropWhileD)

lemma strip_zeros_not_Nil: "\<exists>c \<in> set s. c \<noteq> CHR ''0'' \<Longrightarrow> strip_zeros s \<noteq> []"
  by (auto simp: strip_zeros_def dropWhile_eq_Nil_conv)

lemma strip_zeros_last: "strip_zeros s \<noteq> [] \<Longrightarrow> last (strip_zeros s) \<noteq> CHR ''0''"
proof -
  assume ne: "strip_zeros s \<noteq> []"
  then have d: "dropWhile (\<lambda>c. c = CHR ''0'') (rev s) \<noteq> []" by (simp add: strip_zeros_def)
  have "last (strip_zeros s) = hd (dropWhile (\<lambda>c. c = CHR ''0'') (rev s))"
    using d by (simp add: strip_zeros_def last_rev)
  moreover have "\<not> (hd (dropWhile (\<lambda>c. c = CHR ''0'') (rev s)) = CHR ''0'')"
    using d by (rule hd_dropWhile)
  ultimately show ?thesis by simp
qed

lemma round_half_even_neg: "s \<le> 0 \<Longrightarrow> round_half_even s \<le> 0"
proof -
  assume s: "s \<le> 0"
  then have f: "\<lfloor>s\<rfloor> \<le> 0" by simp
  show ?thesis
  proof (cases "s = of_int \<lfloor>s\<rfloor>")
    case True
    then have "s - of_int \<lfloor>s\<rfloor> = 0" by simp
    then show ?thesis using f by (simp add: round_half_even_def Let_def)
  next
    case False
    then have "of_int \<lfloor>s\<rfloor> < s" using of_int_floor_le [of s] by linarith
    with s have "of_int \<lfloor>s\<rfloor> < (0::rat)" by linarith
    then have "\<lfloor>s\<rfloor> < 0" by simp
    then show ?thesis by (simp add: round_half_even_def Let_def)
  qed
qed

lemma round_double_pos: "round_double a = Some d \<Longrightarrow> 0 < d \<Longrightarrow> 0 < a"
proof (rule ccontr)
  assume r: "round_double a = Some d" and d: "0 < d" and "\<not> 0 < a"
  then have a: "a \<le> 0" by simp
  show False
  proof (cases "a = 0")
    case True
    with r d show False by (simp add: round_double_def)
  next
    case False
    define qe where "qe = max (binary_exponent a - 52) (- 1074)"
    have p: "(0::rat) < 2 powi qe" by simp
    with a have "a / 2 powi qe \<le> 0" by (simp add: divide_le_0_iff)
    then have "round_half_even (a / 2 powi qe) \<le> 0" by (rule round_half_even_neg)
    then have "(of_int (round_half_even (a / 2 powi qe)) :: rat) \<le> 0" by simp
    with p have le: "of_int (round_half_even (a / 2 powi qe)) * 2 powi qe \<le> (0::rat)"
      by (simp add: mult_le_0_iff)
    from r False have "d = of_int (round_half_even (a / 2 powi qe)) * 2 powi qe"
      by (simp add: round_double_def Let_def qe_def split: if_splits)
    with le d show False by simp
  qed
qed

lemma digits_at_pos: "digits_at d E k = Some m \<Longrightarrow> 0 < d \<Longrightarrow> 0 < m"
proof -
  assume h: "digits_at d E k = Some m" and d: "0 < d"
  define q where "q = E - int k + 1"
  have p: "(0::rat) < 10 powi q" by simp
  from h have "round_double (of_int m * 10 powi q) = Some d"
    by (auto simp: digits_at_def Let_def q_def split: if_splits)
  then have "0 < of_int m * (10::rat) powi q" using d by (rule round_double_pos)
  then have "(0::rat) < of_int m" using p by (rule zero_less_mult_pos2)
  then show ?thesis by simp
qed

lemma shortest_from_pos: "shortest_from n d E k = (m, k') \<Longrightarrow> 0 < d \<Longrightarrow> 0 < m"
proof (induction n arbitrary: k)
  case 0
  then show ?case by auto
next
  case (Suc n)
  show ?case
  proof (cases "digits_at d E k")
    case None
    with Suc.prems have "shortest_from n d E (Suc k) = (m, k')" by simp
    with Suc.IH Suc.prems(2) show ?thesis by blast
  next
    case (Some m')
    with Suc.prems have "m' = m" by simp
    with Some Suc.prems(2) show ?thesis using digits_at_pos by blast
  qed
qed

lemma repr_pos_shape:
  assumes "0 < d"
  shows "(\<exists>ip fs. repr_pos d = ip @ ''.'' @ fs
            \<and> ip \<noteq> [] \<and> list_all is_digit ip \<and> fs \<noteq> [] \<and> list_all is_digit fs
            \<and> (fs = ''0'' \<or> last fs \<noteq> CHR ''0''))
       \<or> (\<exists>c fs sg ex. repr_pos d = c # (if fs = [] then [] else ''.'' @ fs) @ ''e'' @ sg @ ex
            \<and> is_digit c \<and> list_all is_digit fs \<and> last (c # fs) \<noteq> CHR ''0''
            \<and> (sg = ''+'' \<or> sg = ''-'') \<and> list_all is_digit ex \<and> 2 \<le> length ex)"
proof -
  obtain m k where mk: "shortest_from 17 d (dec_exp d) 1 = (m, k)"
    by (cases "shortest_from 17 d (dec_exp d) 1") blast
  then have m: "0 < m" using assms by (rule shortest_from_pos)
  define ds where "ds = strip_zeros (str_int m)"
  define E' where "E' = dec_exp d + int (length (str_int m)) - int k"
  have ne: "ds \<noteq> []"
    unfolding ds_def using m by (intro strip_zeros_not_Nil str_int_nonzero)
  then have la: "last ds \<noteq> CHR ''0''"
    unfolding ds_def by (rule strip_zeros_last)
  have dg: "list_all is_digit ds"
    unfolding ds_def by (intro strip_zeros_digits str_int_digits)
  have r: "repr_pos d =
     (if E' < - 4 \<or> 16 \<le> E'
      then take 1 ds @ (if tl ds = [] then [] else ''.'' @ tl ds) @ ''e''
           @ (if E' < 0 then ''-'' else ''+'')
           @ (if \<bar>E'\<bar> < 10 then ''0'' else []) @ str_int \<bar>E'\<bar>
      else if E' < 0
      then ''0.'' @ replicate (nat (- E' - 1)) CHR ''0'' @ ds
      else let n = nat E' + 1
           in if length ds \<le> n
              then ds @ replicate (n - length ds) CHR ''0'' @ ''.0''
              else take n ds @ ''.'' @ drop n ds)"
    by (simp only: repr_pos_def Let_def mk ds_def E'_def prod.case)
  have zero: "is_digit CHR ''0''" by (simp add: is_digit_def)
  consider (ex) "E' < - 4 \<or> 16 \<le> E'" | (small) "\<not> (E' < - 4 \<or> 16 \<le> E')" "E' < 0"
    | (fixed) "\<not> (E' < - 4 \<or> 16 \<le> E')" "\<not> E' < 0"
    by blast
  then show ?thesis
  proof cases
    case ex
    obtain c fs where cf: "ds = c # fs" using ne by (cases ds) auto
    define sg where "sg = (if E' < 0 then ''-'' else ''+'')"
    define et where "et = (if \<bar>E'\<bar> < 10 then ''0'' else []) @ str_int \<bar>E'\<bar>"
    have 1: "repr_pos d = c # (if fs = [] then [] else ''.'' @ fs) @ ''e'' @ sg @ et"
      using ex by (simp add: r cf sg_def et_def)
    have 2: "is_digit c" "list_all is_digit fs" using dg cf by simp_all
    have 3: "last (c # fs) \<noteq> CHR ''0''" using la cf by simp
    have 4: "sg = ''+'' \<or> sg = ''-''" by (simp add: sg_def)
    have 5: "list_all is_digit et" by (simp add: et_def zero str_int_digits)
    have 6: "2 \<le> length et"
    proof (cases "\<bar>E'\<bar> < 10")
      case True
      have "1 \<le> length (str_int \<bar>E'\<bar>)"
        using str_int_not_Nil [of "\<bar>E'\<bar>"] by (cases "str_int \<bar>E'\<bar>") simp_all
      with True show ?thesis by (simp add: et_def)
    next
      case False
      then have "2 \<le> length (str_int \<bar>E'\<bar>)" by (intro str_int_long) simp
      with False show ?thesis by (simp add: et_def)
    qed
    from 1 2 3 4 5 6 show ?thesis by blast
  next
    case small
    define ip where "ip = ''0''"
    define fs where "fs = replicate (nat (- E' - 1)) CHR ''0'' @ ds"
    have 1: "repr_pos d = ip @ ''.'' @ fs" using small by (simp add: r ip_def fs_def)
    have 2: "ip \<noteq> []" "list_all is_digit ip" by (simp_all add: ip_def zero)
    have 3: "fs \<noteq> []" using ne by (simp add: fs_def)
    have 4: "list_all is_digit fs" using dg zero by (auto simp: fs_def list_all_iff)
    have 5: "last fs \<noteq> CHR ''0''" using ne la by (simp add: fs_def)
    from 1 2 3 4 5 show ?thesis by blast
  next
    case fixed
    define n where "n = nat E' + 1"
    show ?thesis
    proof (cases "length ds \<le> n")
      case True
      define ip where "ip = ds @ replicate (n - length ds) CHR ''0''"
      have 1: "repr_pos d = ip @ ''.'' @ ''0''"
        using fixed True by (simp add: r ip_def n_def Let_def)
      have 2: "ip \<noteq> []" using ne by (simp add: ip_def)
      have 3: "list_all is_digit ip" using dg zero by (auto simp: ip_def list_all_iff)
      have 4: "list_all is_digit ''0''" by (simp add: zero)
      from 1 2 3 4 show ?thesis by blast
    next
      case False
      define ip where "ip = take n ds"
      define fs where "fs = drop n ds"
      have 1: "repr_pos d = ip @ ''.'' @ fs"
        using fixed False by (simp add: r ip_def fs_def n_def Let_def)
      have 2: "ip \<noteq> []" using ne by (simp add: ip_def n_def)
      have sub: "set ip \<subseteq> set ds" "set fs \<subseteq> set ds"
        by (simp_all add: ip_def fs_def set_take_subset set_drop_subset)
      have 3: "list_all is_digit ip" "list_all is_digit fs"
        using dg sub by (auto simp: list_all_iff)
      have 4: "fs \<noteq> []" using False by (simp add: fs_def)
      have 5: "last fs \<noteq> CHR ''0''" using False la by (simp add: fs_def)
      from 1 2 3 4 5 show ?thesis by blast
    qed
  qed
qed

lemma float_repr_shape:
  "(\<exists>ip fs. float_repr (Finite x) = (if x < 0 then ''-'' else []) @ ip @ ''.'' @ fs
            \<and> ip \<noteq> [] \<and> list_all is_digit ip \<and> fs \<noteq> [] \<and> list_all is_digit fs
            \<and> (fs = ''0'' \<or> last fs \<noteq> CHR ''0''))
   \<or> (\<exists>c fs sg ex. float_repr (Finite x) =
              (if x < 0 then ''-'' else []) @ c # (if fs = [] then [] else ''.'' @ fs) @ ''e'' @ sg @ ex
            \<and> is_digit c \<and> list_all is_digit fs \<and> last (c # fs) \<noteq> CHR ''0''
            \<and> (sg = ''+'' \<or> sg = ''-'') \<and> list_all is_digit ex \<and> 2 \<le> length ex)"
proof (cases "x = 0")
  case True
  have "float_repr (Finite x) = (if x < 0 then ''-'' else []) @ ''0'' @ ''.'' @ ''0''"
    using True by (simp add: float_repr_def)
  moreover have "list_all is_digit ''0''" by (simp add: is_digit_def)
  ultimately show ?thesis by blast
next
  case False
  define d where "d = \<bar>x\<bar>"
  have d: "0 < d" using False by (simp add: d_def)
  have f: "float_repr (Finite x) = (if x < 0 then ''-'' else []) @ repr_pos d"
    using False by (simp add: float_repr_def d_def)
  from repr_pos_shape [OF d] show ?thesis
  proof
    assume "\<exists>ip fs. repr_pos d = ip @ ''.'' @ fs
            \<and> ip \<noteq> [] \<and> list_all is_digit ip \<and> fs \<noteq> [] \<and> list_all is_digit fs
            \<and> (fs = ''0'' \<or> last fs \<noteq> CHR ''0'')"
    then obtain ip fs where "repr_pos d = ip @ ''.'' @ fs" "ip \<noteq> []" "list_all is_digit ip"
      "fs \<noteq> []" "list_all is_digit fs" "fs = ''0'' \<or> last fs \<noteq> CHR ''0''"
      by blast
    with f have "float_repr (Finite x) = (if x < 0 then ''-'' else []) @ ip @ ''.'' @ fs
            \<and> ip \<noteq> [] \<and> list_all is_digit ip \<and> fs \<noteq> [] \<and> list_all is_digit fs
            \<and> (fs = ''0'' \<or> last fs \<noteq> CHR ''0'')"
      by simp
    then show ?thesis by blast
  next
    assume "\<exists>c fs sg ex. repr_pos d = c # (if fs = [] then [] else ''.'' @ fs) @ ''e'' @ sg @ ex
            \<and> is_digit c \<and> list_all is_digit fs \<and> last (c # fs) \<noteq> CHR ''0''
            \<and> (sg = ''+'' \<or> sg = ''-'') \<and> list_all is_digit ex \<and> 2 \<le> length ex"
    then obtain c fs sg ex where
      "repr_pos d = c # (if fs = [] then [] else ''.'' @ fs) @ ''e'' @ sg @ ex"
      "is_digit c" "list_all is_digit fs" "last (c # fs) \<noteq> CHR ''0''"
      "sg = ''+'' \<or> sg = ''-''" "list_all is_digit ex" "2 \<le> length ex"
      by blast
    with f have "float_repr (Finite x) =
              (if x < 0 then ''-'' else []) @ c # (if fs = [] then [] else ''.'' @ fs) @ ''e'' @ sg @ ex
            \<and> is_digit c \<and> list_all is_digit fs \<and> last (c # fs) \<noteq> CHR ''0''
            \<and> (sg = ''+'' \<or> sg = ''-'') \<and> list_all is_digit ex \<and> 2 \<le> length ex"
      by simp
    then show ?thesis by blast
  qed
qed

text \<open>
  Claim C3, as the code has it, for the multiplier \<open>1\<close> that both call sites pass and a
  non-empty unit. The call never raises; the printed result is split at blanks, a token
  that \<open>float\<close> rejects (\<open>trf\<close>, \<open>tcrf\<close>, \<open>+\<close>) is kept, a token that
  \<open>float\<close> reads becomes the \<open>str\<close> of that float followed by the unit, and the tokens
  are joined by single blanks. The \<open>str\<close> of a finite float is never a bare integer: it
  is either an integer part, a point and at least one digit, where the digits after the
  point end in no zero unless they are the single digit \<open>0\<close>, or it is in exponent
  notation, a mantissa that ends in no zero, \<open>e\<close>, a sign and at least two digits. So
  \<open>5.0\<close> is rendered \<open>5.0\<close>, not \<open>5\<close>, and \<open>1e16\<close> is rendered \<open>1e+16\<close>.
  The negative zero, the infinities and NaN are rendered \<open>-0.0\<close>, \<open>inf\<close>,
  \<open>-inf\<close> and \<open>nan\<close>.
\<close>

theorem eval_expr_base_one:
  "(u \<noteq> [] \<longrightarrow>
      eval_expr pr e (Some 1) (Some u) =
        Inr (Text (py_join '' '' (map (render_token u) (py_split (pr e))))))
   \<and> (py_float a = None \<longrightarrow> render_token u a = a)
   \<and> (py_float a = Some (Finite x) \<longrightarrow>
        ((\<exists>ip fs. render_token u a = (if x < 0 then ''-'' else []) @ ip @ ''.'' @ fs @ u
            \<and> ip \<noteq> [] \<and> list_all is_digit ip \<and> fs \<noteq> [] \<and> list_all is_digit fs
            \<and> (fs = ''0'' \<or> last fs \<noteq> CHR ''0''))
       \<or> (\<exists>c fs sg ex. render_token u a =
              (if x < 0 then ''-'' else []) @ c # (if fs = [] then [] else ''.'' @ fs)
                @ ''e'' @ sg @ ex @ u
            \<and> is_digit c \<and> list_all is_digit fs \<and> last (c # fs) \<noteq> CHR ''0''
            \<and> (sg = ''+'' \<or> sg = ''-'') \<and> list_all is_digit ex \<and> 2 \<le> length ex)))
   \<and> (py_float a = Some NegZero \<longrightarrow> render_token u a = ''-0.0'' @ u)
   \<and> (py_float a = Some (Infinity neg) \<longrightarrow>
        render_token u a = (if neg then ''-inf'' else ''inf'') @ u)
   \<and> (py_float a = Some NaN \<longrightarrow> render_token u a = ''nan'' @ u)"
proof -
  have 1: "eval_expr pr e (Some 1) (Some u) =
        Inr (Text (py_join '' '' (map (render_token u) (py_split (pr e)))))" if "u \<noteq> []"
    using that by (rule eval_expr_one)
  have 2: "render_token u a = a" if "py_float a = None"
    using that by (simp add: render_token_def)
  have 3: "(\<exists>ip fs. render_token u a = (if x < 0 then ''-'' else []) @ ip @ ''.'' @ fs @ u
            \<and> ip \<noteq> [] \<and> list_all is_digit ip \<and> fs \<noteq> [] \<and> list_all is_digit fs
            \<and> (fs = ''0'' \<or> last fs \<noteq> CHR ''0''))
       \<or> (\<exists>c fs sg ex. render_token u a =
              (if x < 0 then ''-'' else []) @ c # (if fs = [] then [] else ''.'' @ fs)
                @ ''e'' @ sg @ ex @ u
            \<and> is_digit c \<and> list_all is_digit fs \<and> last (c # fs) \<noteq> CHR ''0''
            \<and> (sg = ''+'' \<or> sg = ''-'') \<and> list_all is_digit ex \<and> 2 \<le> length ex)"
    if h: "py_float a = Some (Finite x)"
  proof -
    have r: "render_token u a = float_repr (Finite x) @ u"
      using h by (simp add: render_token_def)
    from float_repr_shape [of x] show ?thesis
    proof
      assume "\<exists>ip fs. float_repr (Finite x) = (if x < 0 then ''-'' else []) @ ip @ ''.'' @ fs
            \<and> ip \<noteq> [] \<and> list_all is_digit ip \<and> fs \<noteq> [] \<and> list_all is_digit fs
            \<and> (fs = ''0'' \<or> last fs \<noteq> CHR ''0'')"
      then obtain ip fs where
        "float_repr (Finite x) = (if x < 0 then ''-'' else []) @ ip @ ''.'' @ fs"
        "ip \<noteq> []" "list_all is_digit ip" "fs \<noteq> []" "list_all is_digit fs"
        "fs = ''0'' \<or> last fs \<noteq> CHR ''0''"
        by blast
      with r have "render_token u a = (if x < 0 then ''-'' else []) @ ip @ ''.'' @ fs @ u
            \<and> ip \<noteq> [] \<and> list_all is_digit ip \<and> fs \<noteq> [] \<and> list_all is_digit fs
            \<and> (fs = ''0'' \<or> last fs \<noteq> CHR ''0'')"
        by simp
      then show ?thesis by blast
    next
      assume "\<exists>c fs sg ex. float_repr (Finite x) =
              (if x < 0 then ''-'' else []) @ c # (if fs = [] then [] else ''.'' @ fs) @ ''e'' @ sg @ ex
            \<and> is_digit c \<and> list_all is_digit fs \<and> last (c # fs) \<noteq> CHR ''0''
            \<and> (sg = ''+'' \<or> sg = ''-'') \<and> list_all is_digit ex \<and> 2 \<le> length ex"
      then obtain c fs sg ex where
        "float_repr (Finite x) =
           (if x < 0 then ''-'' else []) @ c # (if fs = [] then [] else ''.'' @ fs) @ ''e'' @ sg @ ex"
        "is_digit c" "list_all is_digit fs" "last (c # fs) \<noteq> CHR ''0''"
        "sg = ''+'' \<or> sg = ''-''" "list_all is_digit ex" "2 \<le> length ex"
        by blast
      with r have "render_token u a =
              (if x < 0 then ''-'' else []) @ c # (if fs = [] then [] else ''.'' @ fs)
                @ ''e'' @ sg @ ex @ u
            \<and> is_digit c \<and> list_all is_digit fs \<and> last (c # fs) \<noteq> CHR ''0''
            \<and> (sg = ''+'' \<or> sg = ''-'') \<and> list_all is_digit ex \<and> 2 \<le> length ex"
        by simp
      then show ?thesis by blast
    qed
  qed
  have 4: "render_token u a = ''-0.0'' @ u" if "py_float a = Some NegZero"
    using that by (simp add: render_token_def float_repr_def)
  have 5: "render_token u a = (if neg then ''-inf'' else ''inf'') @ u"
    if "py_float a = Some (Infinity neg)"
    using that by (simp add: render_token_def float_repr_def)
  have 6: "render_token u a = ''nan'' @ u" if "py_float a = Some NaN"
    using that by (simp add: render_token_def float_repr_def)
  from 1 2 3 4 5 6 show ?thesis by blast
qed

text \<open>
  The sum \<open>5.25 + trf\<close>, printed \<open>trf + 5.25\<close>, is resolved to \<open>trf + 5.25ns\<close>; the
  token \<open>trf\<close> is kept; the token \<open>5.00000000000000\<close> reads as \<open>5.0\<close> and is
  rendered \<open>5.0ns\<close>; the token \<open>1.00000000000000e+16\<close> is rendered \<open>1e+16ns\<close> and
  \<open>1.00000000000000e-5\<close> is rendered \<open>1e-05ns\<close>; \<open>-0.0\<close>, \<open>inf\<close> and \<open>nan\<close>
  are rendered \<open>-0.0ns\<close>, \<open>infns\<close> and \<open>nanns\<close>.
\<close>

theorem eval_expr_base_one_witness:
  "''ns'' \<noteq> []
   \<and> eval_expr sympy_print (StrArg ''5.25 + trf'') (Some 1) (Some ''ns'') = Inr (Text ''trf + 5.25ns'')
   \<and> py_float ''trf'' = None \<and> render_token ''ns'' ''trf'' = ''trf''
   \<and> py_float ''5.00000000000000'' = Some (Finite 5)
   \<and> ((\<exists>ip fs. render_token ''ns'' ''5.00000000000000'' =
                  (if (5::rat) < 0 then ''-'' else []) @ ip @ ''.'' @ fs @ ''ns''
            \<and> ip \<noteq> [] \<and> list_all is_digit ip \<and> fs \<noteq> [] \<and> list_all is_digit fs
            \<and> (fs = ''0'' \<or> last fs \<noteq> CHR ''0''))
       \<or> (\<exists>c fs sg ex. render_token ''ns'' ''5.00000000000000'' =
              (if (5::rat) < 0 then ''-'' else []) @ c # (if fs = [] then [] else ''.'' @ fs)
                @ ''e'' @ sg @ ex @ ''ns''
            \<and> is_digit c \<and> list_all is_digit fs \<and> last (c # fs) \<noteq> CHR ''0''
            \<and> (sg = ''+'' \<or> sg = ''-'') \<and> list_all is_digit ex \<and> 2 \<le> length ex))
   \<and> render_token ''ns'' ''5.00000000000000'' = ''5.0ns''
   \<and> render_token ''ns'' ''1.00000000000000e+16'' = ''1e+16ns''
   \<and> render_token ''ns'' ''1.00000000000000e-5'' = ''1e-05ns''
   \<and> py_float ''-0.0'' = Some NegZero \<and> render_token ''ns'' ''-0.0'' = ''-0.0ns''
   \<and> py_float ''inf'' = Some (Infinity False) \<and> render_token ''ns'' ''inf'' = ''infns''
   \<and> py_float ''nan'' = Some NaN \<and> render_token ''ns'' ''nan'' = ''nanns''"
proof -
  have u: "''ns'' \<noteq> []" by simp
  have n: "py_float ''trf'' = None" by code_simp
  have f: "py_float ''5.00000000000000'' = Some (Finite 5)" by code_simp
  have z: "py_float ''-0.0'' = Some NegZero" by code_simp
  have i: "py_float ''inf'' = Some (Infinity False)" by code_simp
  have q: "py_float ''nan'' = Some NaN" by code_simp
  have j: "py_join '' '' (map (render_token ''ns'') (py_split (sympy_print (StrArg ''5.25 + trf''))))
           = ''trf + 5.25ns''"
    by code_simp
  have r: "render_token ''ns'' ''5.00000000000000'' = ''5.0ns''" by code_simp
  have r16: "render_token ''ns'' ''1.00000000000000e+16'' = ''1e+16ns''" by code_simp
  have r05: "render_token ''ns'' ''1.00000000000000e-5'' = ''1e-05ns''" by code_simp
  note th1 = eval_expr_base_one [where u = "''ns''" and pr = sympy_print
      and e = "StrArg ''5.25 + trf''" and a = "''trf''"]
  note th2 = eval_expr_base_one [where u = "''ns''" and a = "''5.00000000000000''" and x = 5]
  note th3 = eval_expr_base_one [where u = "''ns''" and a = "''-0.0''"]
  note th4 = eval_expr_base_one [where u = "''ns''" and a = "''inf''" and neg = False]
  note th5 = eval_expr_base_one [where u = "''ns''" and a = "''nan''"]
  have e: "eval_expr sympy_print (StrArg ''5.25 + trf'') (Some 1) (Some ''ns'') =
           Inr (Text (py_join '' '' (map (render_token ''ns'')
                  (py_split (sympy_print (StrArg ''5.25 + trf''))))))"
    using th1 u by blast
  have e': "eval_expr sympy_print (StrArg ''5.25 + trf'') (Some 1) (Some ''ns'') =
            Inr (Text ''trf + 5.25ns'')"
    using e by (simp only: j)
  have k: "render_token ''ns'' ''trf'' = ''trf''"
    using th1 n by blast
  have s: "(\<exists>ip fs. render_token ''ns'' ''5.00000000000000'' =
                  (if (5::rat) < 0 then ''-'' else []) @ ip @ ''.'' @ fs @ ''ns''
            \<and> ip \<noteq> [] \<and> list_all is_digit ip \<and> fs \<noteq> [] \<and> list_all is_digit fs
            \<and> (fs = ''0'' \<or> last fs \<noteq> CHR ''0''))
       \<or> (\<exists>c fs sg ex. render_token ''ns'' ''5.00000000000000'' =
              (if (5::rat) < 0 then ''-'' else []) @ c # (if fs = [] then [] else ''.'' @ fs)
                @ ''e'' @ sg @ ex @ ''ns''
            \<and> is_digit c \<and> list_all is_digit fs \<and> last (c # fs) \<noteq> CHR ''0''
            \<and> (sg = ''+'' \<or> sg = ''-'') \<and> list_all is_digit ex \<and> 2 \<le> length ex)"
    using th2 f by blast
  have rz: "render_token ''ns'' ''-0.0'' = ''-0.0ns''"
    using th3 z by simp
  have ri: "render_token ''ns'' ''inf'' = ''infns''"
    using th4 i by simp
  have rq: "render_token ''ns'' ''nan'' = ''nanns''"
    using th5 q by simp
  from u e' n k f s r r16 r05 z rz i ri q rq show ?thesis by blast
qed

text \<open>
  Against the claim as stated. The literal \<open>5.0\<close>, which sympy prints as
  \<open>5.00000000000000\<close>, is rendered \<open>5.0ns\<close> and not \<open>5ns\<close>. With the multiplier 2
  the text of the token is repeated, not its value doubled: the integer literal \<open>5\<close>
  becomes \<open>55.0ns\<close>, and for the float literal the repeated text is no number, so the
  call raises \<open>ValueError\<close>.
\<close>

theorem eval_expr_strip_rescale_counterexample:
  "eval_expr sympy_print (FloatArg 5) (Some 1) (Some ''ns'') = Inr (Text ''5.0ns'')
   \<and> eval_expr sympy_print (FloatArg 5) (Some 1) (Some ''ns'') \<noteq> Inr (Text ''5ns'')
   \<and> eval_expr (\<lambda>e. ''5'') (StrArg ''5'') (Some 2) (Some ''ns'') = Inr (Text ''55.0ns'')
   \<and> eval_expr sympy_print (FloatArg 5) (Some 2) (Some ''ns'') = Inl ValueError"
  by code_simp

section \<open>Outcomes of the parser\<close>

lemma bnd_eq_Inl: "bnd m f = Inl e \<longleftrightarrow> m = Inl e \<or> (\<exists>x. m = Inr x \<and> f x = Inl e)"
  by (cases m) simp_all

lemma convert_to_error: "convert_to ts t u = Inl e \<Longrightarrow> e = TypeError"
  by (auto simp: convert_to_def split: option.splits)

lemma update_error: "update r t v = (Inl e, r') \<Longrightarrow> e = ValueError"
  by (auto simp: update_def int2bit_array_def split: if_splits)

lemma add_reg_error: "add_reg d r ident = Inl e \<Longrightarrow> e = AttributeError"
  by (auto simp: add_reg_def Let_def split: option.splits module_ref.splits)

lemma update_timing_assignment_error:
  "update_timing_assignment d t ident v full = Inl e \<Longrightarrow> handler_error e"
  by (auto simp: update_timing_assignment_def is_reg_top_module_def handler_error_def bnd_eq_Inl
      dest: convert_to_error update_error
      split: option.splits if_splits change_value.splits prod.splits sum.splits)

lemma parse_change_error: "parse_change st ident v full = Inl e \<Longrightarrow> handler_error e"
  by (auto simp: parse_change_def bnd_eq_Inl handler_error_def
      dest: update_timing_assignment_error [unfolded handler_error_def]
      split: change_value.splits if_splits option.splits)

lemma parse_token_error: "parse_token full st tok = Inl e \<Longrightarrow> handler_error e"
  by (cases tok)
     (auto simp: bnd_eq_Inl handler_error_def
       dest: parse_change_error [unfolded handler_error_def] add_reg_error
       split: list.splits option.splits var_type.splits)

lemma parse_tokens_error: "parse_tokens full st toks = Inl e \<Longrightarrow> handler_error e"
proof (induction toks arbitrary: st)
  case Nil
  then show ?case by simp
next
  case (Cons tok toks)
  then show ?case
    by (auto simp: bnd_eq_Inl dest: parse_token_error)
qed


lemma parse_eq:
  "parse toks fin =
     (case parse_tokens False start toks of
        Inl e \<Rightarrow> (case e of AssertionError msg \<Rightarrow> ParseFailure (''Parser Error. '' @ msg)
                            | _ \<Rightarrow> Raised e)
      | Inr st \<Rightarrow>
          (case fin of
             StopIteration \<Rightarrow> Document (top_vcd st)
           | LexerRaises e \<Rightarrow>
               (case e of AssertionError msg \<Rightarrow> ParseFailure (''Parser Error. '' @ msg)
                        | _ \<Rightarrow> Raised e)))"
  by (simp add: parse_def parse_group_def start_def
      split: sum.splits stream_end.splits py_error.splits)

text \<open>
  Claim C4, as the code has it. \<open>parse\<close> ends in one of three ways. It returns the
  document exactly when the stream ends with \<open>StopIteration\<close> and no token handler
  raised. It returns \<open>None\<close>, after logging \<open>Parser Error.\<close> and the message, only
  when the lexer raises an \<open>AssertionError\<close> and no handler raised before. A handler
  raises \<open>ValueError\<close>, \<open>TypeError\<close>, \<open>AttributeError\<close> or \<open>SystemExit\<close>, never an
  \<open>AssertionError\<close>; such an exception, and every exception of the lexer other than an
  \<open>AssertionError\<close>, leaves \<open>parse\<close> uncaught.
\<close>

theorem parse_outcomes:
  "(parse_tokens False start toks = Inl e \<longrightarrow>
      handler_error e \<and> parse toks fin = Raised e)
   \<and> (parse_tokens False start toks = Inr st \<longrightarrow>
        parse toks StopIteration = Document (top_vcd st)
      \<and> parse toks (LexerRaises (AssertionError msg)) = ParseFailure (''Parser Error. '' @ msg)
      \<and> (handler_error e \<or> e = IndexError \<longrightarrow> parse toks (LexerRaises e) = Raised e))
   \<and> (parse toks fin = ParseFailure txt \<longrightarrow>
        (\<exists>msg. fin = LexerRaises (AssertionError msg) \<and> txt = ''Parser Error. '' @ msg))
   \<and> (parse toks fin = Document d \<longrightarrow> fin = StopIteration)"
proof -
  have c1: "handler_error e \<and> parse toks fin = Raised e"
    if a: "parse_tokens False start toks = Inl e"
  proof -
    from a have h: "handler_error e" by (rule parse_tokens_error)
    then have "parse toks fin = Raised e"
      using a by (auto simp: parse_eq handler_error_def)
    with h show ?thesis by simp
  qed
  have c2: "parse toks StopIteration = Document (top_vcd st)
      \<and> parse toks (LexerRaises (AssertionError msg)) = ParseFailure (''Parser Error. '' @ msg)
      \<and> (handler_error e \<or> e = IndexError \<longrightarrow> parse toks (LexerRaises e) = Raised e)"
    if a: "parse_tokens False start toks = Inr st"
    using a by (auto simp: parse_eq handler_error_def)
  have c3: "\<exists>msg. fin = LexerRaises (AssertionError msg) \<and> txt = ''Parser Error. '' @ msg"
    if a: "parse toks fin = ParseFailure txt"
  proof (cases "parse_tokens False start toks")
    case (Inl e)
    then have "handler_error e" by (rule parse_tokens_error)
    with Inl a show ?thesis by (auto simp: parse_eq handler_error_def)
  next
    case (Inr st)
    with a show ?thesis
      by (auto simp: parse_eq split: stream_end.splits py_error.splits)
  qed
  have c4: "fin = StopIteration" if a: "parse toks fin = Document d"
  proof (cases "parse_tokens False start toks")
    case (Inl e)
    with a show ?thesis by (auto simp: parse_eq split: py_error.splits)
  next
    case (Inr st)
    with a show ?thesis
      by (auto simp: parse_eq split: stream_end.splits py_error.splits)
  qed
  from c1 c2 c3 c4 show ?thesis by blast
qed

text \<open>
  Against the claim as stated, which allows a document or a parse failure only: a value
  too wide for its register ends \<open>parse\<close> with \<open>ValueError\<close>, a value change under
  the timescale \<open>1 fs\<close> with \<open>TypeError\<close>, a time change before any timescale with
  \<open>AttributeError\<close>.
\<close>

theorem parse_third_outcome_counterexample:
  "parse trace_wide StopIteration = Raised ValueError
   \<and> parse trace_fs StopIteration = Raised TypeError
   \<and> parse [CHANGE_TIME 0] StopIteration = Raised AttributeError"
  by code_simp

text \<open>
  The trace with the wide value raises in a handler, so even a lexer that ends with an
  assertion yields the \<open>ValueError\<close>; the trace of a single date is parsed, and returns
  the document or the parse failure according to how the stream ends.
\<close>

theorem parse_outcomes_witness:
  "parse_tokens False start trace_wide = Inl ValueError
   \<and> handler_error ValueError
   \<and> parse trace_wide (LexerRaises (AssertionError ''unexpected token'')) = Raised ValueError
   \<and> parse_tokens False start [DATE ''today''] = Inr (start\<lparr>top_vcd := new_VCDModule\<lparr>date := ''today''\<rparr>\<rparr>)
   \<and> parse [DATE ''today''] StopIteration = Document (new_VCDModule\<lparr>date := ''today''\<rparr>)
   \<and> parse [DATE ''today''] (LexerRaises (AssertionError ''unexpected token'')) =
       ParseFailure ''Parser Error. unexpected token''"
proof -
  have a: "parse_tokens False start trace_wide = Inl ValueError" by code_simp
  have b: "parse_tokens False start [DATE ''today''] =
           Inr (start\<lparr>top_vcd := new_VCDModule\<lparr>date := ''today''\<rparr>\<rparr>)"
    by (simp add: start_def initial_state_def)
  note w = parse_outcomes [where toks = trace_wide and e = ValueError
      and fin = "LexerRaises (AssertionError ''unexpected token'')"]
  note d = parse_outcomes [where toks = "[DATE ''today'']"
      and st = "start\<lparr>top_vcd := new_VCDModule\<lparr>date := ''today''\<rparr>\<rparr>"
      and msg = "''unexpected token''"]
  from a w have "handler_error ValueError"
    "parse trace_wide (LexerRaises (AssertionError ''unexpected token'')) = Raised ValueError"
    by blast+
  moreover from b d have
    "parse [DATE ''today''] StopIteration =
       Document (top_vcd (start\<lparr>top_vcd := new_VCDModule\<lparr>date := ''today''\<rparr>\<rparr>))"
    "parse [DATE ''today''] (LexerRaises (AssertionError ''unexpected token'')) =
       ParseFailure (''Parser Error. '' @ ''unexpected token'')"
    by blast+
  ultimately show ?thesis using a b by simp
qed

section \<open>Scope close\<close>

lemma add_reg_current:
  "add_reg d r ident = Inr d' \<Longrightarrow> current_module d' = current_module d"
  by (auto simp: add_reg_def Let_def split: option.splits module_ref.splits)

lemma update_timing_assignment_frame:
  "update_timing_assignment d t ident v full = Inr d' \<Longrightarrow>
   \<exists>regs. d' = d\<lparr>signals := regs\<rparr>"
proof -
  have self: "d = d\<lparr>signals := signals d\<rparr>" by simp
  assume "update_timing_assignment d t ident v full = Inr d'"
  then show ?thesis
    by (auto simp: update_timing_assignment_def is_reg_top_module_def bnd_eq_Inr
        split: if_splits option.splits change_value.splits prod.splits sum.splits
        intro: exI [of _ "signals d"])
qed

lemma parse_change_frame:
  "parse_change st ident v full = Inr st' \<Longrightarrow>
   \<exists>regs. st' = st\<lparr>top_vcd := (top_vcd st)\<lparr>signals := regs\<rparr>\<rparr>"
  by (auto simp: parse_change_def bnd_eq_Inr dest!: update_timing_assignment_frame)

lemma parse_token_cursor:
  assumes "not_scope_open tok" and "parse_token full st tok = Inr st'"
  shows "current_module (top_vcd st') = current_module (top_vcd st)
         \<and> scope st' = (if tok = UPSCOPE then None else scope st)"
proof (cases tok)
  case (SCOPE nm)
  with assms(1) show ?thesis by (simp add: not_scope_open_def)
next
  case (VAR ty sz id_code reference)
  with assms(2) show ?thesis
    by (auto simp: bnd_eq_Inr split: var_type.splits dest: add_reg_current)
next
  case (CHANGE_SCALAR id_code v)
  with assms(2) show ?thesis by (auto dest: parse_change_frame)
next
  case (CHANGE_VECTOR id_code v)
  with assms(2) show ?thesis by (auto dest: parse_change_frame)
qed (use assms(2) in \<open>auto split: list.splits option.splits\<close>)

lemma parse_tokens_cursor:
  "list_all not_scope_open toks \<Longrightarrow> scope st = None \<Longrightarrow> parse_tokens full st toks = Inr st' \<Longrightarrow>
   current_module (top_vcd st') = current_module (top_vcd st) \<and> scope st' = None"
proof (induction toks arbitrary: st)
  case Nil
  then show ?case by simp
next
  case (Cons tok toks)
  from Cons.prems(3) obtain st1 where
    s1: "parse_token full st tok = Inr st1" and s2: "parse_tokens full st1 toks = Inr st'"
    by (auto simp: bnd_eq_Inr)
  from Cons.prems(1) have n: "not_scope_open tok" "list_all not_scope_open toks" by simp_all
  from parse_token_cursor [OF n(1) s1] Cons.prems(2) have
    c: "current_module (top_vcd st1) = current_module (top_vcd st)" and "scope st1 = None"
    by (simp_all split: if_splits)
  with Cons.IH [OF n(2) _ s2] show ?case by simp
qed

lemma parse_token_scope_indep:
  "map_sum id (\<lambda>s. (top_vcd s, timestamp s)) (parse_token full (st\<lparr>scope := sc\<rparr>) tok) =
   map_sum id (\<lambda>s. (top_vcd s, timestamp s)) (parse_token full st tok)"
  by (cases tok)
     (auto simp: parse_change_def bnd_def
       split: list.splits option.splits var_type.splits sum.splits change_value.splits)

lemma parse_tokens_scope_indep:
  "doc_of (parse_tokens full (st\<lparr>scope := sc\<rparr>) toks) = doc_of (parse_tokens full st toks)"
proof (induction toks arbitrary: st sc)
  case Nil
  show ?case by (simp add: doc_of_def)
next
  case (Cons tok toks)
  show ?case
  proof (cases "parse_token full st tok")
    case (Inl e)
    with parse_token_scope_indep [where full = full and st = st and sc = sc and tok = tok]
    have "parse_token full (st\<lparr>scope := sc\<rparr>) tok = Inl e"
      by (cases "parse_token full (st\<lparr>scope := sc\<rparr>) tok") simp_all
    with Inl show ?thesis by (simp add: doc_of_def)
  next
    case (Inr st1)
    with parse_token_scope_indep [where full = full and st = st and sc = sc and tok = tok]
    obtain st2 where st2: "parse_token full (st\<lparr>scope := sc\<rparr>) tok = Inr st2"
      and eq: "top_vcd st2 = top_vcd st1" "timestamp st2 = timestamp st1"
      by (cases "parse_token full (st\<lparr>scope := sc\<rparr>) tok") simp_all
    from eq have "st2 = st1\<lparr>scope := scope st2\<rparr>" by simp
    then have "doc_of (parse_tokens full st2 toks) = doc_of (parse_tokens full st1 toks)"
      using Cons.IH [where st = st1 and sc = "scope st2"] by simp
    with Inr st2 show ?thesis by simp
  qed
qed

lemma parse_tokens_drop_upscope:
  "doc_of (parse_tokens full st (filter (\<lambda>t. t \<noteq> UPSCOPE) toks)) =
   doc_of (parse_tokens full st toks)"
proof (induction toks arbitrary: st)
  case Nil
  show ?case by simp
next
  case (Cons tok toks)
  show ?case
  proof (cases "tok = UPSCOPE")
    case True
    then show ?thesis
      using Cons.IH [where st = st]
        parse_tokens_scope_indep [where full = full and st = st and sc = None and toks = toks]
      by simp
  next
    case False
    then show ?thesis
      by (cases "parse_token full st tok") (simp_all add: Cons.IH)
  qed
qed

text \<open>
  Claim C5, as the code has it. The scope-close branch assigns \<open>None\<close> to the local name
  \<open>scope\<close>, which only the log messages read, and leaves the document alone. After a
  scope-close and until the next scope-open the local name stays \<open>None\<close>, while
  \<open>current_module\<close> still refers to the module it referred to before the scope-close.
  The document a run produces, or the exception it raises, is the same as for the trace
  with every scope-close removed.
\<close>

theorem upscope_clears_local_name_only:
  "(list_all not_scope_open rest \<and> parse_tokens full st (UPSCOPE # rest) = Inr st' \<longrightarrow>
      scope st' = None \<and> current_module (top_vcd st') = current_module (top_vcd st))
   \<and> doc_of (parse_tokens full st (filter (\<lambda>t. t \<noteq> UPSCOPE) toks)) =
     doc_of (parse_tokens full st toks)"
proof -
  have "scope st' = None \<and> current_module (top_vcd st') = current_module (top_vcd st)"
    if "list_all not_scope_open rest" "parse_tokens full st (UPSCOPE # rest) = Inr st'"
    using parse_tokens_cursor [OF that(1), where st = "st\<lparr>scope := None\<rparr>" and st' = st'
        and full = full] that(2) by simp
  then show ?thesis using parse_tokens_drop_upscope by blast
qed

text \<open>
  A scope is closed and a register declared after it: the register is attached to the
  module that was current, exactly as in the trace without the scope-close.
\<close>

theorem upscope_clears_local_name_only_witness:
  "list_all not_scope_open [VAR VarReg 1 ''!'' ''a'']
   \<and> parse_tokens False (start\<lparr>top_vcd := update_module new_VCDModule ''top''\<rparr>)
        (UPSCOPE # [VAR VarReg 1 ''!'' ''a'']) =
      Inr \<lparr>top_vcd = new_VCDModule
              \<lparr>module := Some \<lparr>mname = ''top'', variables = [(''!'', 0)]\<rparr>,
               current_module := Some TopModule,
               signals := [new_register False ''a'' 1],
               sig_map := [(''!'', ''a'')]\<rparr>,
           scope = None, timestamp = 0\<rparr>
   \<and> current_module (update_module new_VCDModule ''top'') = Some TopModule
   \<and> doc_of (parse_tokens False start [SCOPE ''top'', VAR VarReg 1 ''!'' ''a'']) =
     doc_of (parse_tokens False start [SCOPE ''top'', UPSCOPE, VAR VarReg 1 ''!'' ''a''])"
proof -
  let ?st = "start\<lparr>top_vcd := update_module new_VCDModule ''top''\<rparr>"
  let ?st' = "\<lparr>top_vcd = new_VCDModule
              \<lparr>module := Some \<lparr>mname = ''top'', variables = [(''!'', 0)]\<rparr>,
               current_module := Some TopModule,
               signals := [new_register False ''a'' 1],
               sig_map := [(''!'', ''a'')]\<rparr>,
           scope = None, timestamp = 0\<rparr>"
  have h1: "list_all not_scope_open [VAR VarReg 1 ''!'' ''a'']" by code_simp
  have h2: "parse_tokens False ?st (UPSCOPE # [VAR VarReg 1 ''!'' ''a'']) = Inr ?st'"
    by code_simp
  have f: "filter (\<lambda>t. t \<noteq> UPSCOPE) [SCOPE ''top'', UPSCOPE, VAR VarReg 1 ''!'' ''a''] =
           [SCOPE ''top'', VAR VarReg 1 ''!'' ''a'']"
    by simp
  note th = upscope_clears_local_name_only [where rest = "[VAR VarReg 1 ''!'' ''a'']"
      and full = False and st = ?st and st' = ?st']
  note th2 = upscope_clears_local_name_only [where full = False and st = start
      and toks = "[SCOPE ''top'', UPSCOPE, VAR VarReg 1 ''!'' ''a'']"]
  from th h1 h2 have c: "current_module (top_vcd ?st') = current_module (top_vcd ?st)"
    by blast
  then have c': "current_module (update_module new_VCDModule ''top'') = Some TopModule"
    by simp
  from th2 have "doc_of (parse_tokens False start
                  (filter (\<lambda>t. t \<noteq> UPSCOPE) [SCOPE ''top'', UPSCOPE, VAR VarReg 1 ''!'' ''a''])) =
                doc_of (parse_tokens False start [SCOPE ''top'', UPSCOPE, VAR VarReg 1 ''!'' ''a''])"
    by blast
  then have d: "doc_of (parse_tokens False start [SCOPE ''top'', VAR VarReg 1 ''!'' ''a'']) =
     doc_of (parse_tokens False start [SCOPE ''top'', UPSCOPE, VAR VarReg 1 ''!'' ''a''])"
    by (simp only: f)
  from h1 h2 c' d show ?thesis by blast
qed

text \<open>
  Against the claim as stated, which has no scope current after a scope-close. After the
  top scope is opened and closed, \<open>current_module\<close> is still the top module, and the
  register declared next is attached to it. After a nested scope is closed, the register
  declared next is attached to that nested, shadow module.
\<close>

theorem scope_close_counterexample:
  "parse_tokens False start [SCOPE ''top'', UPSCOPE] =
     Inr \<lparr>top_vcd = new_VCDModule
             \<lparr>module := Some \<lparr>mname = ''top'', variables = []\<rparr>,
              current_module := Some TopModule\<rparr>,
          scope = None, timestamp = 0\<rparr>
   \<and> parse [SCOPE ''top'', UPSCOPE, VAR VarReg 1 ''!'' ''a''] StopIteration =
     Document (new_VCDModule
             \<lparr>module := Some \<lparr>mname = ''top'', variables = [(''!'', 0)]\<rparr>,
              current_module := Some TopModule,
              signals := [new_register False ''a'' 1],
              sig_map := [(''!'', ''a'')]\<rparr>)
   \<and> parse [SCOPE ''top'', SCOPE ''sub'', UPSCOPE, VAR VarReg 1 ''#'' ''late''] StopIteration =
     Document (new_VCDModule
             \<lparr>module := Some \<lparr>mname = ''top'', variables = []\<rparr>,
              current_module := Some (ShadowModule 0),
              shadow_modules := [\<lparr>mname = ''sub'', variables = [(''#'', 0)]\<rparr>],
              signals := [new_register False ''late'' 1],
              sig_map := [(''#'', ''late'')]\<rparr>)"
  by code_simp

section \<open>The invariant of the document\<close>

lemma dict_set_values: "snd ` set (dict_set kvs k v) \<subseteq> insert v (snd ` set kvs)"
  by (induction kvs) (force split: if_splits)+

lemma module_regs_add_signal: "module_regs (add_signal m ident i) \<subseteq> insert i (module_regs m)"
  by (simp add: module_regs_def add_signal_def dict_set_values)

lemma module_regs_new [simp]: "module_regs (new_module nm) = {}"
  by (simp add: module_regs_def new_module_def)

lemma doc_inv_iff:
  "doc_inv d \<longleftrightarrow>
     (module d = None \<longrightarrow> current_module d \<noteq> Some TopModule)
   \<and> (\<forall>m. module d = Some m \<longrightarrow>
          (\<forall>i \<in> module_regs m. i < length (signals d)) \<and>
          (\<forall>s \<in> set (shadow_modules d). module_regs s \<inter> module_regs m = {}))
   \<and> (\<forall>s \<in> set (shadow_modules d). \<forall>i \<in> module_regs s. i < length (signals d))
   \<and> (\<forall>k. current_module d = Some (ShadowModule k) \<longrightarrow> k < length (shadow_modules d))"
  by (auto simp: doc_inv_def list_all_iff module_regs_def
      split: option.splits module_ref.splits)

lemma doc_inv_new: "doc_inv new_VCDModule"
  by (simp add: doc_inv_iff new_VCDModule_def)

lemma doc_inv_update_module: "doc_inv d \<Longrightarrow> doc_inv (update_module d nm)"
  by (auto simp: doc_inv_iff update_module_def split: option.splits)

lemma doc_inv_signals:
  "doc_inv d \<Longrightarrow> length regs = length (signals d) \<Longrightarrow> doc_inv (d\<lparr>signals := regs\<rparr>)"
  by (simp add: doc_inv_iff)

lemma doc_inv_add_reg:
  assumes "doc_inv d" and "add_reg d r ident = Inr d'"
  shows "doc_inv d'"
proof (cases "current_module d")
  case None
  with assms(2) show ?thesis by (simp add: add_reg_def)
next
  case (Some ref)
  show ?thesis
  proof (cases ref)
    case TopModule
    with Some assms(2) obtain m where m: "module d = Some m"
      and d': "d' = d\<lparr>sig_map := dict_set (sig_map d) ident (name r),
                      module := Some (add_signal m ident (length (signals d))),
                      signals := signals d @ [r]\<rparr>"
      by (auto simp: add_reg_def Let_def split: option.splits)
    have sub: "module_regs (add_signal m ident (length (signals d))) \<subseteq>
               insert (length (signals d)) (module_regs m)"
      by (rule module_regs_add_signal)
    from assms(1) m have
      top: "\<forall>i \<in> module_regs m. i < length (signals d)" and
      dis: "\<forall>s \<in> set (shadow_modules d). module_regs s \<inter> module_regs m = {}" and
      sh: "\<forall>s \<in> set (shadow_modules d). \<forall>i \<in> module_regs s. i < length (signals d)" and
      cur: "\<forall>k. current_module d = Some (ShadowModule k) \<longrightarrow> k < length (shadow_modules d)"
      by (simp_all add: doc_inv_iff)
    have 1: "\<forall>i \<in> module_regs (add_signal m ident (length (signals d))).
               i < length (signals d @ [r])"
      using sub top by fastforce
    have 2: "\<forall>s \<in> set (shadow_modules d).
               module_regs s \<inter> module_regs (add_signal m ident (length (signals d))) = {}"
    proof
      fix s assume s: "s \<in> set (shadow_modules d)"
      with sh have "length (signals d) \<notin> module_regs s" by fastforce
      with dis s sub show "module_regs s \<inter> module_regs (add_signal m ident (length (signals d))) = {}"
        by fastforce
    qed
    have 3: "\<forall>s \<in> set (shadow_modules d). \<forall>i \<in> module_regs s. i < length (signals d @ [r])"
      using sh by fastforce
    show ?thesis
      unfolding d' using 1 2 3 cur by (simp add: doc_inv_iff)
  next
    case (ShadowModule k)
    with Some assms(2) have
      d': "d' = d\<lparr>sig_map := dict_set (sig_map d) ident (name r),
                   shadow_modules := (shadow_modules d)
                     [k := add_signal (shadow_modules d ! k) ident (length (signals d))],
                   signals := signals d @ [r]\<rparr>"
      by (simp add: add_reg_def Let_def)
    from assms(1) Some ShadowModule have k: "k < length (shadow_modules d)"
      by (simp add: doc_inv_iff)
    let ?new = "add_signal (shadow_modules d ! k) ident (length (signals d))"
    have sub: "module_regs ?new \<subseteq> insert (length (signals d)) (module_regs (shadow_modules d ! k))"
      by (rule module_regs_add_signal)
    from assms(1) have
      sh: "\<forall>s \<in> set (shadow_modules d). \<forall>i \<in> module_regs s. i < length (signals d)"
      by (simp add: doc_inv_iff)
    have mem: "s \<in> set ((shadow_modules d)[k := ?new]) \<Longrightarrow> s = ?new \<or> s \<in> set (shadow_modules d)" for s
      using set_update_subset_insert [of "shadow_modules d" k ?new] by auto
    have old: "shadow_modules d ! k \<in> set (shadow_modules d)" using k by simp
    have 3: "\<forall>s \<in> set ((shadow_modules d)[k := ?new]). \<forall>i \<in> module_regs s.
               i < length (signals d @ [r])"
    proof (intro ballI)
      fix s i assume "s \<in> set ((shadow_modules d)[k := ?new])" "i \<in> module_regs s"
      with mem [of s] sub sh old show "i < length (signals d @ [r])" by fastforce
    qed
    have 2: "\<forall>m. module d = Some m \<longrightarrow>
               (\<forall>i \<in> module_regs m. i < length (signals d @ [r])) \<and>
               (\<forall>s \<in> set ((shadow_modules d)[k := ?new]). module_regs s \<inter> module_regs m = {})"
    proof (intro allI impI conjI ballI)
      fix m i assume "module d = Some m" "i \<in> module_regs m"
      with assms(1) show "i < length (signals d @ [r])" by (fastforce simp: doc_inv_iff)
    next
      fix m s assume m: "module d = Some m" and s: "s \<in> set ((shadow_modules d)[k := ?new])"
      from assms(1) m have
        top: "\<forall>i \<in> module_regs m. i < length (signals d)" and
        dis: "\<forall>s \<in> set (shadow_modules d). module_regs s \<inter> module_regs m = {}"
        by (simp_all add: doc_inv_iff)
      from top have fresh: "length (signals d) \<notin> module_regs m" by fastforce
      from mem [OF s] show "module_regs s \<inter> module_regs m = {}"
      proof
        assume "s = ?new"
        with sub dis old fresh show ?thesis by fastforce
      next
        assume "s \<in> set (shadow_modules d)"
        with dis show ?thesis by simp
      qed
    qed
    from assms(1) Some ShadowModule have 1: "module d = None \<longrightarrow> current_module d \<noteq> Some TopModule"
      by simp
    show ?thesis
      unfolding d' using 1 2 3 k Some ShadowModule by (simp add: doc_inv_iff)
  qed
qed


lemma update_timing_assignment_signals:
  assumes "update_timing_assignment d t ident v full = Inr d'"
  shows "\<exists>regs. d' = d\<lparr>signals := regs\<rparr> \<and> length regs = length (signals d)"
proof -
  have self: "d = d\<lparr>signals := signals d\<rparr>" by simp
  from assms show ?thesis
    by (auto simp: update_timing_assignment_def is_reg_top_module_def bnd_eq_Inr
        split: if_splits option.splits change_value.splits prod.splits sum.splits
        intro: exI [of _ "signals d"])
qed

lemma doc_inv_parse_change:
  assumes "doc_inv (top_vcd st)" and "parse_change st ident v full = Inr st'"
  shows "doc_inv (top_vcd st')"
proof -
  from assms(2) obtain v' d' where
    "update_timing_assignment (top_vcd st) (timestamp st) ident v' full = Inr d'"
    and st': "st' = st\<lparr>top_vcd := d'\<rparr>"
    by (auto simp: parse_change_def bnd_eq_Inr)
  then obtain regs where "d' = (top_vcd st)\<lparr>signals := regs\<rparr>"
    "length regs = length (signals (top_vcd st))"
    using update_timing_assignment_signals by blast
  with assms(1) st' show ?thesis by (simp add: doc_inv_signals)
qed

lemma doc_inv_parse_token:
  assumes "doc_inv (top_vcd st)" and "parse_token full st tok = Inr st'"
  shows "doc_inv (top_vcd st')"
proof (cases tok)
  case (SCOPE nm)
  with assms show ?thesis by (auto simp: doc_inv_update_module)
next
  case (VAR ty sz id_code reference)
  with assms show ?thesis
    by (auto simp: bnd_eq_Inr split: var_type.splits dest: doc_inv_add_reg)
next
  case (CHANGE_SCALAR id_code v)
  with assms show ?thesis by (auto dest: doc_inv_parse_change)
next
  case (CHANGE_VECTOR id_code v)
  with assms show ?thesis by (auto dest: doc_inv_parse_change)
next
  case (DATE x)
  with assms(2) have "st' = st\<lparr>top_vcd := (top_vcd st)\<lparr>date := x\<rparr>\<rparr>" by auto
  with assms(1) show ?thesis by (simp add: doc_inv_iff)
next
  case (VERSION x)
  with assms(2) have "st' = st\<lparr>top_vcd := (top_vcd st)\<lparr>version := x\<rparr>\<rparr>" by auto
  with assms(1) show ?thesis by (simp add: doc_inv_iff)
next
  case (TIMESCALE x)
  with assms(2) obtain ts where "st' = st\<lparr>top_vcd := (top_vcd st)\<lparr>timescale := ts\<rparr>\<rparr>"
    by (auto split: list.splits option.splits)
  with assms(1) show ?thesis by (simp add: doc_inv_iff)
next
  case (CHANGE_TIME x)
  with assms show ?thesis by (auto split: option.splits)
qed (use assms in auto)

lemma doc_inv_parse_tokens:
  "doc_inv (top_vcd st) \<Longrightarrow> parse_tokens full st toks = Inr st' \<Longrightarrow> doc_inv (top_vcd st')"
proof (induction toks arbitrary: st)
  case Nil
  then show ?case by simp
next
  case (Cons tok toks)
  from Cons.prems(2) obtain st1 where
    "parse_token full st tok = Inr st1" "parse_tokens full st1 toks = Inr st'"
    by (auto simp: bnd_eq_Inr)
  with Cons.IH [of st1] Cons.prems(1) doc_inv_parse_token show ?case by blast
qed

lemma doc_inv_reachable: "parse_tokens full start toks = Inr st \<Longrightarrow> doc_inv (top_vcd st)"
  using doc_inv_parse_tokens [of start full toks st]
  by (simp add: start_def initial_state_def doc_inv_new)

section \<open>Ambiguous values\<close>

lemma generate_unsafe:
  "\<not> export_pwl_safe r \<Longrightarrow> generate_piecewise_linear pr r tsc expr = Inr ''''"
  by (simp add: generate_piecewise_linear_def)

lemma update_keeps_flag:
  "update r t v = (res, r') \<Longrightarrow> export_pwl_safe r' = export_pwl_safe r"
  by (auto simp: update_def split: sum.splits)

lemma update_timing_assignment_unsafe:
  assumes "update_timing_assignment d t ident v full = Inr d'"
    and "i < length (signals d)" and "\<not> export_pwl_safe (signals d ! i)"
  shows "i < length (signals d') \<and> \<not> export_pwl_safe (signals d' ! i)"
proof -
  have tagged: "\<not> export_pwl_safe (((signals d)[j := tag (signals d ! j) True]) ! i)" for j
    using assms(2,3) by (cases "j = i") (simp_all add: tag_def)
  have updated: "\<not> export_pwl_safe (((signals d)[j := r']) ! i)"
    if "update (signals d ! j) t n = (res, r')" for j n res r'
    using assms(2,3) update_keeps_flag [OF that] by (cases "j = i") simp_all
  from assms(1) show ?thesis
    using assms(2,3) tagged updated
    by (auto simp: update_timing_assignment_def is_reg_top_module_def bnd_eq_Inr
        split: if_splits option.splits change_value.splits prod.splits sum.splits)
qed

lemma add_reg_unsafe:
  assumes "add_reg d r ident = Inr d'"
    and "i < length (signals d)" and "\<not> export_pwl_safe (signals d ! i)"
  shows "i < length (signals d') \<and> \<not> export_pwl_safe (signals d' ! i)"
  using assms
  by (auto simp: add_reg_def Let_def nth_append split: option.splits module_ref.splits)

lemma update_module_signals [simp]: "signals (update_module d nm) = signals d"
  by (simp add: update_module_def split: option.splits)

lemma parse_token_unsafe:
  assumes "parse_token full st tok = Inr st'"
    and "i < length (signals (top_vcd st))" and "\<not> export_pwl_safe (signals (top_vcd st) ! i)"
  shows "i < length (signals (top_vcd st')) \<and> \<not> export_pwl_safe (signals (top_vcd st') ! i)"
proof (cases tok)
  case (SCOPE nm)
  with assms show ?thesis by auto
next
  case (VAR ty sz id_code reference)
  with assms show ?thesis
    by (auto simp: bnd_eq_Inr split: var_type.splits dest: add_reg_unsafe)
next
  case (CHANGE_SCALAR id_code v)
  with assms show ?thesis
    by (auto simp: parse_change_def bnd_eq_Inr dest: update_timing_assignment_unsafe)
next
  case (CHANGE_VECTOR id_code v)
  with assms show ?thesis
    by (auto simp: parse_change_def bnd_eq_Inr dest: update_timing_assignment_unsafe)
qed (use assms in \<open>auto split: list.splits option.splits\<close>)

lemma parse_tokens_unsafe:
  "parse_tokens full st toks = Inr st' \<Longrightarrow>
   i < length (signals (top_vcd st)) \<Longrightarrow> \<not> export_pwl_safe (signals (top_vcd st) ! i) \<Longrightarrow>
   i < length (signals (top_vcd st')) \<and> \<not> export_pwl_safe (signals (top_vcd st') ! i)"
proof (induction toks arbitrary: st)
  case Nil
  then show ?case by simp
next
  case (Cons tok toks)
  from Cons.prems(1) obtain st1 where
    s1: "parse_token full st tok = Inr st1" and s2: "parse_tokens full st1 toks = Inr st'"
    by (auto simp: bnd_eq_Inr)
  from parse_token_unsafe [OF s1 Cons.prems(2,3)] Cons.IH [OF s2] show ?case by simp
qed

lemma parse_change_ambiguous:
  assumes "CHR ''x'' \<in> set s \<or> CHR ''z'' \<in> set s"
    and "module (top_vcd st) = Some m" and "dict_get (variables m) ident = Some i"
  shows "parse_change st ident (StrVal s) full =
           (case timescale (top_vcd st) of
              None \<Rightarrow> Inl AttributeError
            | Some ts \<Rightarrow>
                (case unit_conversion (base_unit ts) of
                   None \<Rightarrow> Inl TypeError
                 | Some b \<Rightarrow>
                     Inr (st\<lparr>top_vcd := (top_vcd st)\<lparr>signals :=
                            (signals (top_vcd st))
                              [i := (signals (top_vcd st) ! i)\<lparr>export_pwl_safe := False\<rparr>]\<rparr>\<rparr>)))"
  using assms
  by (auto simp: parse_change_def update_timing_assignment_def is_reg_top_module_def
      convert_to_def tag_def split: option.splits)

text \<open>
  Claim C6. Let a trace be parsed up to a value change for an identifier of the top
  scope whose value is a text containing \<open>x\<close> or \<open>z\<close>. If the timescale is set and its
  unit is in the table, the token is processed without an exception. Whenever it is, the
  document changes in one place only: the register's \<open>export_pwl_safe\<close> becomes false.
  Its timeline gets no entry and every other register is as before. Whatever tokens
  follow, the flag of that register stays false, and its PWL text is empty.
\<close>

theorem ambiguous_value_excludes_signal:
  "parse_tokens full start pre = Inr st
   \<and> module (top_vcd st) = Some m \<and> dict_get (variables m) ident = Some i
   \<and> (CHR ''x'' \<in> set s \<or> CHR ''z'' \<in> set s)
   \<and> (tok = CHANGE_SCALAR ident (StrVal s) \<or> tok = CHANGE_VECTOR ident (StrVal s))
   \<longrightarrow>
     i < length (signals (top_vcd st))
   \<and> (timescale (top_vcd st) = Some ts \<and> unit_conversion (base_unit ts) \<noteq> None \<longrightarrow>
        (\<exists>st1. parse_token full st tok = Inr st1))
   \<and> (parse_token full st tok = Inr st1 \<longrightarrow>
        st1 = st\<lparr>top_vcd := (top_vcd st)\<lparr>signals :=
                 (signals (top_vcd st))
                   [i := (signals (top_vcd st) ! i)\<lparr>export_pwl_safe := False\<rparr>]\<rparr>\<rparr>
      \<and> timing_assignments (signals (top_vcd st1) ! i) =
          timing_assignments (signals (top_vcd st) ! i)
      \<and> \<not> export_pwl_safe (signals (top_vcd st1) ! i)
      \<and> (\<forall>j. j \<noteq> i \<longrightarrow> signals (top_vcd st1) ! j = signals (top_vcd st) ! j)
      \<and> (parse_tokens full st1 post = Inr st2 \<longrightarrow>
            i < length (signals (top_vcd st2))
          \<and> \<not> export_pwl_safe (signals (top_vcd st2) ! i)
          \<and> generate_piecewise_linear pr (signals (top_vcd st2) ! i) tsc expr = Inr ''''))"
proof (intro impI, elim conjE)
  assume reach: "parse_tokens full start pre = Inr st"
    and m: "module (top_vcd st) = Some m" and i: "dict_get (variables m) ident = Some i"
    and xz: "CHR ''x'' \<in> set s \<or> CHR ''z'' \<in> set s"
    and tok: "tok = CHANGE_SCALAR ident (StrVal s) \<or> tok = CHANGE_VECTOR ident (StrVal s)"
  let ?d = "top_vcd st"
  let ?st1 = "st\<lparr>top_vcd := ?d\<lparr>signals :=
                 (signals ?d)[i := (signals ?d ! i)\<lparr>export_pwl_safe := False\<rparr>]\<rparr>\<rparr>"
  from i have "i \<in> module_regs m"
    by (auto simp: dict_get_def module_regs_def dest: map_of_SomeD intro: rev_image_eqI)
  with doc_inv_reachable [OF reach] m have bound: "i < length (signals ?d)"
    by (simp add: doc_inv_iff)
  from tok have step: "parse_token full st tok = parse_change st ident (StrVal s) full"
    by auto
  note eq = parse_change_ambiguous [OF xz m i, of full]
  have ret: "\<exists>st1. parse_token full st tok = Inr st1"
    if "timescale ?d = Some ts" "unit_conversion (base_unit ts) \<noteq> None"
    using that by (auto simp: step eq)
  have after: "st1 = ?st1
      \<and> timing_assignments (signals (top_vcd st1) ! i) = timing_assignments (signals ?d ! i)
      \<and> \<not> export_pwl_safe (signals (top_vcd st1) ! i)
      \<and> (\<forall>j. j \<noteq> i \<longrightarrow> signals (top_vcd st1) ! j = signals ?d ! j)
      \<and> (parse_tokens full st1 post = Inr st2 \<longrightarrow>
            i < length (signals (top_vcd st2))
          \<and> \<not> export_pwl_safe (signals (top_vcd st2) ! i)
          \<and> generate_piecewise_linear pr (signals (top_vcd st2) ! i) tsc expr = Inr '''')"
    if ok: "parse_token full st tok = Inr st1"
  proof -
    from ok have st1: "st1 = ?st1"
      by (auto simp: step eq split: option.splits)
    have a: "timing_assignments (signals (top_vcd st1) ! i) = timing_assignments (signals ?d ! i)"
      and b: "\<not> export_pwl_safe (signals (top_vcd st1) ! i)"
      and c: "\<forall>j. j \<noteq> i \<longrightarrow> signals (top_vcd st1) ! j = signals ?d ! j"
      and l: "i < length (signals (top_vcd st1))"
      using bound by (simp_all add: st1)
    have e: "i < length (signals (top_vcd st2))
          \<and> \<not> export_pwl_safe (signals (top_vcd st2) ! i)
          \<and> generate_piecewise_linear pr (signals (top_vcd st2) ! i) tsc expr = Inr ''''"
      if "parse_tokens full st1 post = Inr st2"
      using parse_tokens_unsafe [OF that l b] by (simp add: generate_unsafe)
    from st1 a b c e show ?thesis by blast
  qed
  from bound ret after
  show "i < length (signals ?d)
   \<and> (timescale ?d = Some ts \<and> unit_conversion (base_unit ts) \<noteq> None \<longrightarrow>
        (\<exists>st1. parse_token full st tok = Inr st1))
   \<and> (parse_token full st tok = Inr st1 \<longrightarrow>
        st1 = ?st1
      \<and> timing_assignments (signals (top_vcd st1) ! i) = timing_assignments (signals ?d ! i)
      \<and> \<not> export_pwl_safe (signals (top_vcd st1) ! i)
      \<and> (\<forall>j. j \<noteq> i \<longrightarrow> signals (top_vcd st1) ! j = signals ?d ! j)
      \<and> (parse_tokens full st1 post = Inr st2 \<longrightarrow>
            i < length (signals (top_vcd st2))
          \<and> \<not> export_pwl_safe (signals (top_vcd st2) ! i)
          \<and> generate_piecewise_linear pr (signals (top_vcd st2) ! i) tsc expr = Inr ''''))"
    by blast
qed

text \<open>
  The register \<open>a\<close> receives \<open>x\<close> at tick 3, after one valid update and before
  another: the update at tick 5 is still stored, the flag stays false, and the exported
  text holds a bare line break for \<open>a\<close> and the directive of \<open>b\<close>.
\<close>

theorem ambiguous_value_excludes_signal_witness:
  "parse_tokens False start trace_x_pre = Inr state_x_pre
   \<and> module (top_vcd state_x_pre) = Some \<lparr>mname = ''top'', variables = [(''!'', 0), (''#'', 1)]\<rparr>
   \<and> dict_get (variables \<lparr>mname = ''top'', variables = [(''!'', 0), (''#'', 1)]\<rparr>) ''!'' = Some 0
   \<and> CHR ''x'' \<in> set ''x''
   \<and> timescale (top_vcd state_x_pre) = Some ns1 \<and> unit_conversion (base_unit ns1) \<noteq> None
   \<and> parse_token False state_x_pre (CHANGE_SCALAR ''!'' (StrVal ''x'')) = Inr state_x_mid
   \<and> parse_tokens False state_x_mid trace_x_post = Inr state_x_post
   \<and> timing_assignments (signals (top_vcd state_x_mid) ! 0) = [(0, [0])]
   \<and> \<not> export_pwl_safe (signals (top_vcd state_x_post) ! 0)
   \<and> generate_piecewise_linear sympy_print (signals (top_vcd state_x_post) ! 0) (Some ns1) expr0
       = Inr ''''
   \<and> export_pwl sympy_print (top_vcd state_x_post) expr0 =
       Inr (newline @ ''Vb b 0 pwl(0 vvdd'' @ newline @ ''+)'' @ newline @ newline @ newline)"
proof -
  let ?m = "\<lparr>mname = ''top'', variables = [(''!'', 0), (''#'', 1)]\<rparr>"
  have h1: "parse_tokens False start trace_x_pre = Inr state_x_pre" by code_simp
  have h2: "module (top_vcd state_x_pre) = Some ?m" by code_simp
  have h3: "dict_get (variables ?m) ''!'' = Some 0" by code_simp
  have h4: "CHR ''x'' \<in> set ''x''" by simp
  have h5: "timescale (top_vcd state_x_pre) = Some ns1" by code_simp
  have h6: "unit_conversion (base_unit ns1) \<noteq> None" by code_simp
  have h7: "parse_token False state_x_pre (CHANGE_SCALAR ''!'' (StrVal ''x'')) = Inr state_x_mid"
    by code_simp
  have h8: "parse_tokens False state_x_mid trace_x_post = Inr state_x_post" by code_simp
  have t: "timing_assignments (signals (top_vcd state_x_pre) ! 0) = [(0, [0])]" by code_simp
  have e: "export_pwl sympy_print (top_vcd state_x_post) expr0 =
       Inr (newline @ ''Vb b 0 pwl(0 vvdd'' @ newline @ ''+)'' @ newline @ newline @ newline)"
    by code_simp
  note th = ambiguous_value_excludes_signal [where full = False and pre = trace_x_pre
      and st = state_x_pre and m = ?m and ident = "''!''" and i = 0 and s = "''x''"
      and tok = "CHANGE_SCALAR ''!'' (StrVal ''x'')" and ts = ns1 and ?st1.0 = state_x_mid
      and post = trace_x_post and ?st2.0 = state_x_post and pr = sympy_print
      and tsc = "Some ns1" and expr = expr0]
  from th h1 h2 h3 h4 h7 h8 have
    c1: "timing_assignments (signals (top_vcd state_x_mid) ! 0) =
         timing_assignments (signals (top_vcd state_x_pre) ! 0)" and
    c2: "\<not> export_pwl_safe (signals (top_vcd state_x_post) ! 0)" and
    c3: "generate_piecewise_linear sympy_print (signals (top_vcd state_x_post) ! 0) (Some ns1) expr0
         = Inr ''''"
    by blast+
  from c1 t have c1': "timing_assignments (signals (top_vcd state_x_mid) ! 0) = [(0, [0])]"
    by simp
  from h1 h2 h3 h4 h5 h6 h7 h8 c1' c2 c3 e show ?thesis by blast
qed

section \<open>Export of the top scope\<close>

lemma export_vars_cong:
  "(\<And>i. i \<in> snd ` set vars \<Longrightarrow> regs' ! i = regs ! i) \<Longrightarrow>
   export_vars pr regs' tsc expr acc vars = export_vars pr regs tsc expr acc vars"
proof (induction vars arbitrary: acc)
  case Nil
  show ?case by simp
next
  case (Cons kv vars)
  obtain ident i where kv: "kv = (ident, i)" by (cases kv)
  from Cons.prems have "regs' ! i = regs ! i" by (simp add: kv)
  moreover have "export_vars pr regs' tsc expr acc' vars = export_vars pr regs tsc expr acc' vars"
    for acc'
    using Cons.prems by (intro Cons.IH) simp
  ultimately show ?case by (simp add: kv)
qed

lemma export_pwl_unfold:
  "export_pwl pr d expr =
     (case module d of
        None \<Rightarrow> Inl AttributeError
      | Some m \<Rightarrow> export_vars pr (signals d) (timescale d) expr '''' (variables m))"
  by (simp add: export_pwl_def module_export_pwl_def split: option.splits)

lemma export_pwl_shadow_register:
  assumes "doc_inv d" and "s \<in> set (shadow_modules d)" and "i \<in> module_regs s"
  shows "export_pwl pr (d\<lparr>signals := (signals d)[i := r]\<rparr>) expr = export_pwl pr d expr"
proof (cases "module d")
  case None
  then show ?thesis by (simp add: export_pwl_unfold)
next
  case (Some m)
  with assms have "i \<notin> module_regs m" by (auto simp: doc_inv_iff)
  then have "((signals d)[i := r]) ! j = signals d ! j" if "j \<in> snd ` set (variables m)" for j
  proof -
    from that \<open>i \<notin> module_regs m\<close> have "i \<noteq> j" by (auto simp: module_regs_def)
    then show ?thesis by simp
  qed
  then have "export_vars pr ((signals d)[i := r]) (timescale d) expr '''' (variables m) =
             export_vars pr (signals d) (timescale d) expr '''' (variables m)"
    by (rule export_vars_cong)
  with Some show ?thesis by (simp add: export_pwl_unfold)
qed

lemma add_reg_top_name:
  "add_reg d r ident = Inr d' \<Longrightarrow> module d = Some m \<Longrightarrow>
   \<exists>m'. module d' = Some m' \<and> mname m' = mname m"
  by (auto simp: add_reg_def Let_def add_signal_def split: option.splits module_ref.splits)

lemma parse_token_top_name:
  assumes "parse_token full st tok = Inr st'" and "module (top_vcd st) = Some m"
  shows "\<exists>m'. module (top_vcd st') = Some m' \<and> mname m' = mname m"
proof (cases tok)
  case (SCOPE nm)
  with assms show ?thesis by (auto simp: update_module_def)
next
  case (VAR ty sz id_code reference)
  with assms show ?thesis
    by (auto simp: bnd_eq_Inr split: var_type.splits dest: add_reg_top_name)
next
  case (CHANGE_SCALAR id_code v)
  with assms show ?thesis by (auto dest: parse_change_frame)
next
  case (CHANGE_VECTOR id_code v)
  with assms show ?thesis by (auto dest: parse_change_frame)
qed (use assms in \<open>auto split: list.splits option.splits\<close>)

lemma parse_tokens_top_name:
  "parse_tokens full st toks = Inr st' \<Longrightarrow> module (top_vcd st) = Some m \<Longrightarrow>
   \<exists>m'. module (top_vcd st') = Some m' \<and> mname m' = mname m"
proof (induction toks arbitrary: st m)
  case Nil
  then show ?case by simp
next
  case (Cons tok toks)
  from Cons.prems(1) obtain st1 where
    s1: "parse_token full st tok = Inr st1" and s2: "parse_tokens full st1 toks = Inr st'"
    by (auto simp: bnd_eq_Inr)
  from parse_token_top_name [OF s1 Cons.prems(2)] obtain m1 where
    "module (top_vcd st1) = Some m1" "mname m1 = mname m"
    by blast
  with Cons.IH [OF s2, of m1] show ?case by simp
qed

lemma module_regs_add_signal_mem: "i \<in> module_regs (add_signal m ident i)"
proof -
  have "map_of (dict_set (variables m) ident i) ident = Some i" by (rule map_of_dict_set)
  then have "(ident, i) \<in> set (dict_set (variables m) ident i)" by (rule map_of_SomeD)
  then show ?thesis by (force simp: module_regs_def add_signal_def)
qed

text \<open>
  Claim C7. The first scope opened becomes the top module, and it stays the top module
  under that name; a scope opened later under another name is appended to
  \<open>_shadow_modules\<close> and becomes current, so that a register declared next is held by
  that shadow module. \<open>export_pwl\<close> walks the variables of the top module only. For
  every document the parser builds, a register held by a shadow module is not held by the
  top module, and the exported text is the same whatever that register is replaced by.
\<close>

theorem export_top_scope_only:
  "(parse_tokens full start toks = Inr st \<longrightarrow>
      (\<forall>s \<in> set (shadow_modules (top_vcd st)). \<forall>i \<in> module_regs s.
         (\<forall>m. module (top_vcd st) = Some m \<longrightarrow> i \<notin> module_regs m) \<and>
         (\<forall>r. export_pwl pr ((top_vcd st)\<lparr>signals := (signals (top_vcd st))[i := r]\<rparr>) expr =
              export_pwl pr (top_vcd st) expr)))
   \<and> (module d = None \<longrightarrow>
        update_module d nm = d\<lparr>module := Some (new_module nm), current_module := Some TopModule\<rparr>)
   \<and> (module d = Some m \<and> mname m \<noteq> nm \<longrightarrow>
        update_module d nm =
          d\<lparr>shadow_modules := shadow_modules d @ [new_module nm],
            current_module := Some (ShadowModule (length (shadow_modules d)))\<rparr>)
   \<and> (module (top_vcd st0) = Some m \<and> parse_tokens full st0 toks = Inr st1 \<longrightarrow>
        (\<exists>m'. module (top_vcd st1) = Some m' \<and> mname m' = mname m))
   \<and> (current_module d = Some (ShadowModule k) \<and> k < length (shadow_modules d)
        \<and> add_reg d r ident = Inr d' \<longrightarrow>
        signals d' = signals d @ [r] \<and> module d' = module d
        \<and> length (signals d) \<in> module_regs (shadow_modules d' ! k))
   \<and> export_pwl pr d expr =
       (case module d of
          None \<Rightarrow> Inl AttributeError
        | Some m \<Rightarrow> export_vars pr (signals d) (timescale d) expr '''' (variables m))"
proof -
  have c1: "\<forall>s \<in> set (shadow_modules (top_vcd st)). \<forall>i \<in> module_regs s.
         (\<forall>m. module (top_vcd st) = Some m \<longrightarrow> i \<notin> module_regs m) \<and>
         (\<forall>r. export_pwl pr ((top_vcd st)\<lparr>signals := (signals (top_vcd st))[i := r]\<rparr>) expr =
              export_pwl pr (top_vcd st) expr)"
    if reach: "parse_tokens full start toks = Inr st"
  proof (intro ballI conjI allI impI)
    fix s i m
    assume "s \<in> set (shadow_modules (top_vcd st))" "i \<in> module_regs s"
      "module (top_vcd st) = Some m"
    with doc_inv_reachable [OF reach] show "i \<notin> module_regs m"
      by (auto simp: doc_inv_iff)
  next
    fix s i r
    assume "s \<in> set (shadow_modules (top_vcd st))" "i \<in> module_regs s"
    with doc_inv_reachable [OF reach]
    show "export_pwl pr ((top_vcd st)\<lparr>signals := (signals (top_vcd st))[i := r]\<rparr>) expr =
              export_pwl pr (top_vcd st) expr"
      by (rule export_pwl_shadow_register)
  qed
  have c2: "update_module d nm = d\<lparr>module := Some (new_module nm), current_module := Some TopModule\<rparr>"
    if "module d = None"
    using that by (simp add: update_module_def)
  have c3: "update_module d nm =
          d\<lparr>shadow_modules := shadow_modules d @ [new_module nm],
            current_module := Some (ShadowModule (length (shadow_modules d)))\<rparr>"
    if "module d = Some m" "mname m \<noteq> nm"
    using that by (simp add: update_module_def)
  have c4: "\<exists>m'. module (top_vcd st1) = Some m' \<and> mname m' = mname m"
    if "module (top_vcd st0) = Some m" "parse_tokens full st0 toks = Inr st1"
    using parse_tokens_top_name [OF that(2) that(1)] .
  have c5: "signals d' = signals d @ [r] \<and> module d' = module d
        \<and> length (signals d) \<in> module_regs (shadow_modules d' ! k)"
    if "current_module d = Some (ShadowModule k)" "k < length (shadow_modules d)"
      "add_reg d r ident = Inr d'"
    using that by (auto simp: add_reg_def Let_def module_regs_add_signal_mem)
  from c1 c2 c3 c4 c5 export_pwl_unfold [of pr d expr] show ?thesis by blast
qed

text \<open>
  In the example trace the register \<open>c\<close> is held by the shadow module \<open>sub\<close>. The
  exported text holds the directives of \<open>a\<close> and \<open>b\<close>, and it is the same when \<open>c\<close>
  is replaced by a register with a rising timeline.
\<close>

theorem export_top_scope_only_witness:
  "parse_tokens False start trace_x_pre = Inr state_x_pre
   \<and> shadow_modules (top_vcd state_x_pre) = [\<lparr>mname = ''sub'', variables = [(''$'', 2)]\<rparr>]
   \<and> 2 \<in> module_regs \<lparr>mname = ''sub'', variables = [(''$'', 2)]\<rparr>
   \<and> signals (top_vcd state_x_pre) ! 2 = new_register False ''c'' 1
   \<and> export_pwl sympy_print
        ((top_vcd state_x_pre)\<lparr>signals := (signals (top_vcd state_x_pre))[2 := rising ''c'']\<rparr>) expr0 =
      export_pwl sympy_print (top_vcd state_x_pre) expr0
   \<and> export_pwl sympy_print (top_vcd state_x_pre) expr0 =
       Inr (''Va a 0 pwl(0 0'' @ newline @ ''+)'' @ newline @ newline @ newline @
            ''Vb b 0 pwl(0 vvdd'' @ newline @ ''+)'' @ newline @ newline @ newline)"
proof -
  let ?s = "\<lparr>mname = ''sub'', variables = [(''$'', 2)]\<rparr>"
  have h1: "parse_tokens False start trace_x_pre = Inr state_x_pre" by code_simp
  have h2: "shadow_modules (top_vcd state_x_pre) = [?s]" by code_simp
  have h3: "2 \<in> module_regs ?s" by (simp add: module_regs_def)
  have h4: "signals (top_vcd state_x_pre) ! 2 = new_register False ''c'' 1" by code_simp
  have e: "export_pwl sympy_print (top_vcd state_x_pre) expr0 =
       Inr (''Va a 0 pwl(0 0'' @ newline @ ''+)'' @ newline @ newline @ newline @
            ''Vb b 0 pwl(0 vvdd'' @ newline @ ''+)'' @ newline @ newline @ newline)"
    by code_simp
  from h2 have mem: "?s \<in> set (shadow_modules (top_vcd state_x_pre))" by simp
  note th = export_top_scope_only [where full = False and toks = trace_x_pre
      and st = state_x_pre and pr = sympy_print and expr = expr0]
  from th h1 mem h3 have
    "export_pwl sympy_print
        ((top_vcd state_x_pre)\<lparr>signals := (signals (top_vcd state_x_pre))[2 := rising ''c'']\<rparr>) expr0 =
      export_pwl sympy_print (top_vcd state_x_pre) expr0"
    by blast
  with h1 h2 h3 h4 e show ?thesis by blast
qed

end
